theory Spec2Isabelle
  imports Complex_Main "HOL-Library.Multiset"
begin

section \<open>The hybrid memory store of \<^verbatim>\<open>store.ts\<close>\<close>

text \<open>
  The class \<^verbatim>\<open>MemoryStore\<close> keeps a SQLite table \<^verbatim>\<open>memories\<close> (metadata) and a LanceDB
  table \<^verbatim>\<open>memory_vectors\<close> (embeddings). The model is a state record holding both tables
  as lists in insertion order, and one HOL function per method. A method that awaits a
  collaborator returns the error that collaborator threw, or its result, together with
  the state it leaves behind.

  Conventions of the model:
  \<^item> numbers of JavaScript and REAL columns are \<open>real\<close>, epoch milliseconds and
    \<^verbatim>\<open>decay_days\<close> are \<open>int\<close>, \<^verbatim>\<open>limit\<close> and \<^verbatim>\<open>offset\<close> are row counts (\<open>nat\<close>);
  \<^item> \<^verbatim>\<open>undefined\<close> and \<^verbatim>\<open>null\<close> are \<open>None\<close>;
  \<^item> a \<^verbatim>\<open>SELECT\<close> without \<^verbatim>\<open>ORDER BY\<close> scans the table in insertion (rowid) order;
  \<^item> the column \<^verbatim>\<open>tags\<close> holds the text \<^verbatim>\<open>JSON.stringify(tags)\<close>; its only writers
    serialise a string array and its only reader parses it back (\<open>JSON_roundtrip\<close>
    below), so the row keeps the array, and the text is rebuilt by \<open>JSON_stringify\<close>
    where SQL looks at it;
  \<^item> the lazily opened vector table is taken as open (and empty in a new store);
  \<^item> the text of a filter handed to the vector table is read by the library: the model
    takes that reader as a field of the store (\<open>lance_where\<close>), so an identifier that
    holds a quote selects, or breaks, whatever the library makes of the spliced text.
\<close>

subsection \<open>Types\<close>

text \<open>Modelled from the spec: the closed enumeration \<^verbatim>\<open>MemoryCategory\<close> of \<^verbatim>\<open>types.ts\<close>,
  which is not among the sources.\<close>

datatype MemoryCategory =
  Fact | Preference | Event | Relationship | Context | Instruction | Decision | Entity

type_synonym vector = "real list"

text \<open>A row of the table \<^verbatim>\<open>memories\<close>; the field \<open>c_x\<close> is the column \<^verbatim>\<open>x\<close>.\<close>

record row =
  c_id :: string
  c_content :: string
  c_category :: MemoryCategory
  c_confidence :: real
  c_importance :: real
  c_created_at :: int
  c_updated_at :: int
  c_last_accessed_at :: int
  c_decay_days :: "int option"
  c_source_channel :: "string option"
  c_source_message_id :: "string option"
  c_tags :: "string list"
  c_supersedes :: "string option"
  c_deleted_at :: "int option"
  c_delete_reason :: "string option"

text \<open>An entry of the vector table: \<^verbatim>\<open>{id, vector, text}\<close>.\<close>

record vrow =
  v_id :: string
  v_vector :: vector
  v_text :: string

text \<open>The interface \<^verbatim>\<open>Memory\<close>, as \<^verbatim>\<open>rowToMemory\<close> builds it.\<close>

record Memory =
  id' :: string
  content :: string
  category :: MemoryCategory
  confidence :: real
  importance :: real
  createdAt :: int
  updatedAt :: int
  lastAccessedAt :: int
  decayDays :: "int option"
  sourceChannel :: "string option"
  sourceMessageId :: "string option"
  tags :: "string list"
  supersedes :: "string option"
  deletedAt :: "int option"
  deleteReason :: "string option"

record MemorySearchResult =
  memory :: Memory
  score :: real

record CreateMemoryInput =
  in_content :: string
  in_category :: MemoryCategory
  in_confidence :: "real option"
  in_importance :: "real option"
  in_decayDays :: "int option"
  in_tags :: "string list option"
  in_sourceChannel :: "string option"
  in_sourceMessageId :: "string option"

text \<open>\<^verbatim>\<open>decayDays\<close> of an update may be absent, \<^verbatim>\<open>null\<close> (make permanent) or a number.\<close>

record UpdateMemoryInput =
  up_content :: "string option"
  up_confidence :: "real option"
  up_importance :: "real option"
  up_decayDays :: "int option option"
  up_tags :: "string list option"

record SearchOptions =
  s_query :: "string option"
  s_category :: "MemoryCategory option"
  s_minConfidence :: "real option"
  s_minImportance :: "real option"
  s_tags :: "string list option"
  s_limit :: "nat option"
  s_excludeDecayed :: "bool option"

text \<open>Modelled from the spec: the sort key of \<^verbatim>\<open>ListOptions\<close> is one of the Memory
  attributes; \<^verbatim>\<open>types.ts\<close>, which declares it, is not among the sources.\<close>

datatype SortBy =
  SortId | SortContent | SortCategory | SortConfidence | SortImportance
  | SortCreatedAt | SortUpdatedAt | SortLastAccessedAt | SortDecayDays
  | SortSourceChannel | SortSourceMessageId | SortTags | SortSupersedes
  | SortDeletedAt | SortDeleteReason

datatype SortOrder = Asc | Desc

record ListOptions =
  l_category :: "MemoryCategory option"
  l_sortBy :: "SortBy option"
  l_sortOrder :: "SortOrder option"
  l_limit :: "nat option"
  l_offset :: "nat option"

record ListResult =
  total' :: nat
  items :: "Memory list"

text \<open>The fields of the class that the methods read and write, and the filter language
  of the vector table: \<open>lance_where\<close> reads the text of a \<^verbatim>\<open>where\<close> filter as a predicate on
  entries, or rejects it (\<open>None\<close>: the call throws). \<^verbatim>\<open>update\<close> and \<^verbatim>\<open>delete\<close> build that
  text by splicing the identifier between quotes, so what they select is whatever the
  library reads from the text.\<close>

record MemoryStore =
  db :: "row list"
  vectorTable :: "vrow list"
  embeddings :: "string \<Rightarrow> vector"
  lance_where :: "string \<Rightarrow> (vrow \<Rightarrow> bool) option"

text \<open>
  What one call finds outside the store: the clock, the fresh identifier, and whether
  a collaborator throws when the call reaches it (the embedding provider, a call on the
  vector table, an INSERT or UPDATE statement of SQLite).
\<close>

record env =
  now :: int
  uuid :: string
  embed_fails :: bool
  vector_fails :: bool
  sqlite_fails :: bool

datatype error = EmbeddingError | VectorError | SqliteError

subsection \<open>SQLite's LIKE and the serialised tags\<close>

definition ascii_lower :: "char \<Rightarrow> char" where
  "ascii_lower c =
     (if 65 \<le> (of_char c :: nat) \<and> (of_char c :: nat) \<le> 90
      then char_of ((of_char c :: nat) + 32) else c)"

text \<open>\<^verbatim>\<open>text LIKE pattern\<close> with SQLite's defaults: \<^verbatim>\<open>%\<close> stands for any run of
  characters, \<^verbatim>\<open>_\<close> for any one character, ASCII letters match in either case, and
  there is no escape character.\<close>

fun like :: "string \<Rightarrow> string \<Rightarrow> bool" where
  "like [] s = (s = [])"
| "like (p # ps) [] = (p = CHR ''%'' \<and> like ps [])"
| "like (p # ps) (c # cs) =
     (if p = CHR ''%'' then like ps (c # cs) \<or> like (p # ps) cs
      else (p = CHR ''_'' \<or> ascii_lower p = ascii_lower c) \<and> like ps cs)"

definition hexdigit :: "nat \<Rightarrow> char" where
  "hexdigit n = (if n < 10 then char_of (48 + n) else char_of (87 + n))"

text \<open>How \<^verbatim>\<open>JSON.stringify\<close> writes one character of a string.\<close>

definition json_escape :: "char \<Rightarrow> string" where
  "json_escape c =
     (if c = CHR 0x22 then [CHR 0x5C, CHR 0x22]
      else if c = CHR 0x5C then [CHR 0x5C, CHR 0x5C]
      else if c = CHR 0x08 then [CHR 0x5C, CHR ''b'']
      else if c = CHR 0x09 then [CHR 0x5C, CHR ''t'']
      else if c = CHR 0x0A then [CHR 0x5C, CHR ''n'']
      else if c = CHR 0x0C then [CHR 0x5C, CHR ''f'']
      else if c = CHR 0x0D then [CHR 0x5C, CHR ''r'']
      else if (of_char c :: nat) < 32
        then [CHR 0x5C, CHR ''u'', CHR ''0'', CHR ''0'',
              hexdigit ((of_char c :: nat) div 16), hexdigit ((of_char c :: nat) mod 16)]
      else [c])"

definition JSON_stringify_string :: "string \<Rightarrow> string" where
  "JSON_stringify_string s = [CHR 0x22] @ concat (map json_escape s) @ [CHR 0x22]"

fun join_commas :: "string list \<Rightarrow> string" where
  "join_commas [] = []"
| "join_commas [x] = x"
| "join_commas (x # y # ys) = x @ '','' @ join_commas (y # ys)"

definition JSON_stringify :: "string list \<Rightarrow> string" where
  "JSON_stringify ts = ''['' @ join_commas (map JSON_stringify_string ts) @ '']''"

text \<open>\<^verbatim>\<open>JSON.parse\<close> on the text of an array of strings, as \<^verbatim>\<open>JSON.stringify\<close> writes
  it (no white space between the tokens); \<open>None\<close> is the \<^verbatim>\<open>SyntaxError\<close>. A character is
  a byte here, so an escape \<^verbatim>\<open>\uXXXX\<close> above \<^verbatim>\<open>\u00ff\<close> is not read.\<close>

definition hexval :: "char \<Rightarrow> nat option" where
  "hexval c =
     (let n = (of_char c :: nat) in
      if 48 \<le> n \<and> n \<le> 57 then Some (n - 48)
      else if 97 \<le> n \<and> n \<le> 102 then Some (n - 87)
      else if 65 \<le> n \<and> n \<le> 70 then Some (n - 55)
      else None)"

definition json_unescape :: "char \<Rightarrow> char option" where
  "json_unescape x =
     (if x = CHR 0x22 then Some (CHR 0x22)
      else if x = CHR 0x5C then Some (CHR 0x5C)
      else if x = CHR ''/'' then Some (CHR ''/'')
      else if x = CHR ''b'' then Some (CHR 0x08)
      else if x = CHR ''t'' then Some (CHR 0x09)
      else if x = CHR ''n'' then Some (CHR 0x0A)
      else if x = CHR ''f'' then Some (CHR 0x0C)
      else if x = CHR ''r'' then Some (CHR 0x0D)
      else None)"

definition hex4 :: "char \<Rightarrow> char \<Rightarrow> char \<Rightarrow> char \<Rightarrow> char option" where
  "hex4 h1 h2 h3 h4 =
     (case (hexval h1, hexval h2, hexval h3, hexval h4) of
        (Some a, Some b, Some c, Some d) \<Rightarrow>
          (let n = ((a * 16 + b) * 16 + c) * 16 + d
           in if n < 256 then Some (char_of n) else None)
      | _ \<Rightarrow> None)"

fun parse_chars :: "string \<Rightarrow> (string \<times> string) option" where
  "parse_chars [] = None"
| "parse_chars (c # cs) =
     (if c = CHR 0x22 then Some ([], cs)
      else if c = CHR 0x5C then
        (case cs of
           [] \<Rightarrow> None
         | x # xs \<Rightarrow>
             if x = CHR ''u'' then
               (case xs of
                  h1 # h2 # h3 # h4 # rest \<Rightarrow>
                    (case hex4 h1 h2 h3 h4 of
                       None \<Rightarrow> None
                     | Some ch \<Rightarrow> map_option (\<lambda>(s, r). (ch # s, r)) (parse_chars rest))
                | _ \<Rightarrow> None)
             else (case json_unescape x of
                     None \<Rightarrow> None
                   | Some ch \<Rightarrow> map_option (\<lambda>(s, r). (ch # s, r)) (parse_chars xs)))
      else if (of_char c :: nat) < 32 then None
      else map_option (\<lambda>(s, r). (c # s, r)) (parse_chars cs))"

function parse_elems :: "string \<Rightarrow> string list option" where
  "parse_elems cs =
     (case parse_chars cs of
        None \<Rightarrow> None
      | Some (x, rest) \<Rightarrow>
          if rest = '']'' then Some [x]
          else (case rest of
                  a # b # cs' \<Rightarrow>
                    if a = CHR '','' \<and> b = CHR 0x22
                    then map_option (Cons x) (parse_elems cs') else None
                | _ \<Rightarrow> None))"
  by pat_completeness auto
termination
proof (relation "measure length")
  show "wf (measure length)" by simp
next
  fix cs x2 x rest a list b cs'
  assume p: "parse_chars cs = Some x2" "(x, rest) = x2"
    and r: "rest = a # list" "list = b # cs'"
  have "length rest' < length cs" if "parse_chars cs = Some (x', rest')" for cs x' rest'
    using that
  proof (induction cs arbitrary: x' rest' rule: parse_chars.induct)
    case 1
    then show ?case by simp
  next
    case (2 c cs)
    then show ?case
      by (fastforce split: if_splits list.splits option.splits)
  qed
  from this [of cs x rest] p r show "(cs', cs) \<in> measure length" by simp
qed

declare parse_elems.simps [simp del]

definition JSON_parse :: "string \<Rightarrow> string list option" where
  "JSON_parse s =
     (if s = ''[]'' then Some []
      else (case s of
              a # b # cs \<Rightarrow> if a = CHR ''['' \<and> b = CHR 0x22 then parse_elems cs else None
            | _ \<Rightarrow> None))"

text \<open>What follows the first element in the text of a serialised array.\<close>

fun join_tail :: "string list \<Rightarrow> string" where
  "join_tail [] = '']''"
| "join_tail (t # ts) =
     CHR '','' # CHR 0x22 # concat (map json_escape t) @ CHR 0x22 # join_tail ts"

subsection \<open>Reading a row\<close>

definition rowToMemory :: "row \<Rightarrow> Memory" where
  "rowToMemory r =
     \<lparr> id' = c_id r,
       content = c_content r,
       category = c_category r,
       confidence = c_confidence r,
       importance = c_importance r,
       createdAt = c_created_at r,
       updatedAt = c_updated_at r,
       lastAccessedAt = c_last_accessed_at r,
       decayDays = c_decay_days r,
       sourceChannel = c_source_channel r,
       sourceMessageId = c_source_message_id r,
       tags = c_tags r,
       supersedes = c_supersedes r,
       deletedAt = c_deleted_at r,
       deleteReason = c_delete_reason r \<rparr>"

text \<open>\<^verbatim>\<open>get\<close>: an identifier of length 8 is looked up by \<^verbatim>\<open>id LIKE 'xxxxxxxx%' LIMIT 1\<close>,
  any other by \<^verbatim>\<open>id = ?\<close>. Soft-deleted and expired rows are returned too.\<close>

definition get :: "MemoryStore \<Rightarrow> string \<Rightarrow> Memory option" where
  "get st i =
     (if length i = 8
      then map_option rowToMemory (find (\<lambda>r. like (i @ ''%'') (c_id r)) (db st))
      else map_option rowToMemory (find (\<lambda>r. c_id r = i) (db st)))"

subsection \<open>create, update, delete\<close>

text \<open>\<^verbatim>\<open>create\<close>: embed, add the vector entry, insert the row, read it back. The column
  \<^verbatim>\<open>id\<close> is the primary key, so the insert throws when the identifier is already stored.
  Nothing catches an exception: the state at the throw is the state left behind.\<close>

definition create ::
  "env \<Rightarrow> MemoryStore \<Rightarrow> CreateMemoryInput \<Rightarrow> (error + Memory option) \<times> MemoryStore" where
  "create e st input =
     (let i = uuid e; t = now e in
      if embed_fails e then (Inl EmbeddingError, st)
      else let vec = embeddings st (in_content input) in
      if vector_fails e then (Inl VectorError, st)
      else let st1 = st\<lparr>vectorTable := vectorTable st @
                      [\<lparr>v_id = i, v_vector = vec, v_text = in_content input\<rparr>]\<rparr> in
      if sqlite_fails e \<or> i \<in> set (map c_id (db st1)) then (Inl SqliteError, st1)
      else let st2 = st1\<lparr>db := db st1 @
                      [\<lparr> c_id = i,
                         c_content = in_content input,
                         c_category = in_category input,
                         c_confidence = (case in_confidence input of None \<Rightarrow> 0.8 | Some c \<Rightarrow> c),
                         c_importance = (case in_importance input of None \<Rightarrow> 0.5 | Some c \<Rightarrow> c),
                         c_created_at = t,
                         c_updated_at = t,
                         c_last_accessed_at = t,
                         c_decay_days = in_decayDays input,
                         c_source_channel = in_sourceChannel input,
                         c_source_message_id = in_sourceMessageId input,
                         c_tags = (case in_tags input of None \<Rightarrow> [] | Some ts \<Rightarrow> ts),
                         c_supersedes = None,
                         c_deleted_at = None,
                         c_delete_reason = None \<rparr>]\<rparr> in
      (Inr (get st2 i), st2))"

text \<open>The \<^verbatim>\<open>SET\<close> list that \<^verbatim>\<open>update\<close> stages: \<^verbatim>\<open>updated_at\<close> always, every other
  column when its field is present.\<close>

definition apply_updates :: "int \<Rightarrow> UpdateMemoryInput \<Rightarrow> row \<Rightarrow> row" where
  "apply_updates t u r =
     r\<lparr> c_updated_at := t,
        c_content := (case up_content u of None \<Rightarrow> c_content r | Some c \<Rightarrow> c),
        c_confidence := (case up_confidence u of None \<Rightarrow> c_confidence r | Some c \<Rightarrow> c),
        c_importance := (case up_importance u of None \<Rightarrow> c_importance r | Some c \<Rightarrow> c),
        c_decay_days := (case up_decayDays u of None \<Rightarrow> c_decay_days r | Some d \<Rightarrow> d),
        c_tags := (case up_tags u of None \<Rightarrow> c_tags r | Some ts \<Rightarrow> ts) \<rparr>"

text \<open>The filter text \<^verbatim>\<open>id = '${id}'\<close> of \<^verbatim>\<open>update\<close> and \<^verbatim>\<open>delete\<close>.\<close>

definition id_filter :: "string \<Rightarrow> string" where
  "id_filter i = ''id = '' @ [CHR 0x27] @ i @ [CHR 0x27]"

text \<open>\<^verbatim>\<open>update\<close>: when the content is given, re-embed and overwrite the vector entries
  that the filter text selects; then \<^verbatim>\<open>UPDATE memories SET ... WHERE id = ?\<close> on the identifier as
  given; then \<^verbatim>\<open>get\<close>.\<close>

definition update ::
  "env \<Rightarrow> MemoryStore \<Rightarrow> string \<Rightarrow> UpdateMemoryInput \<Rightarrow> (error + Memory option) \<times> MemoryStore" where
  "update e st i updates =
     (let t = now e;
          staged =
            (case up_content updates of
               None \<Rightarrow> Inr st
             | Some c \<Rightarrow>
                 if embed_fails e then Inl EmbeddingError
                 else if vector_fails e then Inl VectorError
                 else (case lance_where st (id_filter i) of
                         None \<Rightarrow> Inl VectorError
                       | Some p \<Rightarrow>
                           Inr (st\<lparr>vectorTable :=
                                  map (\<lambda>v. if p v
                                            then v\<lparr>v_vector := embeddings st c, v_text := c\<rparr>
                                            else v)
                                      (vectorTable st)\<rparr>)))
      in case staged of
           Inl err \<Rightarrow> (Inl err, st)
         | Inr st1 \<Rightarrow>
             if sqlite_fails e then (Inl SqliteError, st1)
             else let st2 = st1\<lparr>db := map (\<lambda>r. if c_id r = i then apply_updates t updates r else r)
                                          (db st1)\<rparr>
                  in (Inr (get st2 i), st2))"

text \<open>\<^verbatim>\<open>delete\<close>: an identifier of length 8 is resolved against the live rows only, and
  kept as it is when no live row matches; the row with the resolved id is stamped, and
  the vector entries that the filter text selects are removed.\<close>

definition resolve_live :: "MemoryStore \<Rightarrow> string \<Rightarrow> string" where
  "resolve_live st i =
     (if length i = 8
      then (case find (\<lambda>r. like (i @ ''%'') (c_id r) \<and> c_deleted_at r = None) (db st) of
              Some r \<Rightarrow> c_id r
            | None \<Rightarrow> i)
      else i)"

definition delete ::
  "env \<Rightarrow> MemoryStore \<Rightarrow> string \<Rightarrow> string option \<Rightarrow> (error + unit) \<times> MemoryStore" where
  "delete e st i reason =
     (let fullId = resolve_live st i in
      if sqlite_fails e then (Inl SqliteError, st)
      else let st1 = st\<lparr>db := map (\<lambda>r. if c_id r = fullId
                                        then r\<lparr>c_deleted_at := Some (now e),
                                               c_delete_reason := reason\<rparr>
                                        else r) (db st)\<rparr> in
      if vector_fails e then (Inl VectorError, st1)
      else (case lance_where st1 (id_filter fullId) of
              None \<Rightarrow> (Inl VectorError, st1)
            | Some p \<Rightarrow>
                (Inr (), st1\<lparr>vectorTable := filter (\<lambda>v. \<not> p v) (vectorTable st1)\<rparr>)))"

subsection \<open>The vector index\<close>

text \<open>The distance LanceDB reports for its default metric: the squared Euclidean
  distance of the two vectors.\<close>

definition l2_distance :: "vector \<Rightarrow> vector \<Rightarrow> real" where
  "l2_distance q v = sum_list (map (\<lambda>(a, b). (a - b) ^ 2) (zip q v))"

text \<open>\<^verbatim>\<open>vectorSearch(q).limit(k).toArray()\<close>: no index is ever built on the table, so
  the search is exhaustive; the \<open>k\<close> nearest entries, nearest first, entries at the same
  distance in insertion order, each with its \<^verbatim>\<open>_distance\<close>.\<close>

definition vectorSearch :: "vrow list \<Rightarrow> vector \<Rightarrow> nat \<Rightarrow> (vrow \<times> real) list" where
  "vectorSearch vt q k =
     take k (sort_key snd (map (\<lambda>v. (v, l2_distance q (v_vector v))) vt))"

subsection \<open>search\<close>

text \<open>The \<^verbatim>\<open>WHERE\<close> clause that \<^verbatim>\<open>search\<close> builds; \<open>t\<close> is \<^verbatim>\<open>Date.now()\<close>.\<close>

definition tag_pattern :: "string \<Rightarrow> string" where
  "tag_pattern tag = ''%'' @ [CHR 0x22] @ tag @ [CHR 0x22] @ ''%''"

definition row_matches :: "SearchOptions \<Rightarrow> int \<Rightarrow> string list \<Rightarrow> row \<Rightarrow> bool" where
  "row_matches opts t vectorIds r =
     (c_deleted_at r = None
      \<and> (if vectorIds \<noteq> [] then c_id r \<in> set vectorIds else True)
      \<and> (case s_category opts of None \<Rightarrow> True | Some c \<Rightarrow> c_category r = c)
      \<and> (case s_minConfidence opts of None \<Rightarrow> True | Some m \<Rightarrow> c_confidence r \<ge> m)
      \<and> (case s_minImportance opts of None \<Rightarrow> True | Some m \<Rightarrow> c_importance r \<ge> m)
      \<and> (case s_tags opts of
            None \<Rightarrow> True
          | Some ts \<Rightarrow> list_all (\<lambda>tag. like (tag_pattern tag) (JSON_stringify (c_tags r))) ts)
      \<and> (if s_excludeDecayed opts \<noteq> Some False
          then (case c_decay_days r of
                  None \<Rightarrow> True
                | Some d \<Rightarrow> c_created_at r + d * 86400000 > t)
          else True))"

text \<open>The candidates of the semantic step: nothing when the query is absent or empty,
  otherwise the ids of twice \<open>limit\<close> nearest entries with the score
  \<^verbatim>\<open>1 / (1 + distance)\<close>.\<close>

definition candidates ::
  "env \<Rightarrow> MemoryStore \<Rightarrow> SearchOptions \<Rightarrow> error + (string \<times> real) list" where
  "candidates e st opts =
     (case s_query opts of
        None \<Rightarrow> Inr []
      | Some q \<Rightarrow>
          if q = [] then Inr []
          else if embed_fails e then Inl EmbeddingError
          else if vector_fails e then Inl VectorError
          else Inr (map (\<lambda>(v, d). (v_id v, 1 / (1 + d)))
                 (vectorSearch (vectorTable st) (embeddings st q)
                    ((case s_limit opts of None \<Rightarrow> 10 | Some n \<Rightarrow> n) * 2))))"

text \<open>A JavaScript \<^verbatim>\<open>Map\<close> filled entry by entry: a later entry replaces an earlier
  one with the same key.\<close>

definition js_map :: "('k \<times> 'v) list \<Rightarrow> ('k \<rightharpoonup> 'v)" where
  "js_map kvs = foldl (\<lambda>m (k, v). m(k \<mapsto> v)) Map.empty kvs"

definition search ::
  "env \<Rightarrow> MemoryStore \<Rightarrow> SearchOptions \<Rightarrow> error + MemorySearchResult list" where
  "search e st opts =
     (case candidates e st opts of
        Inl err \<Rightarrow> Inl err
      | Inr scored \<Rightarrow>
          let vectorIds = map fst scored;
              vectorScores = js_map scored;
              rows = take (case s_limit opts of None \<Rightarrow> 10 | Some n \<Rightarrow> n)
                       (filter (row_matches opts (now e) vectorIds) (db st));
              results = map (\<lambda>r. \<lparr> memory = rowToMemory r,
                                     score = (case vectorScores (c_id r) of
                                                None \<Rightarrow> 1 | Some s \<Rightarrow> s) \<rparr>) rows;
              idOrder = js_map (zip vectorIds [0 ..< length vectorIds])
          in Inr (if vectorIds \<noteq> []
                  then sort_key (\<lambda>res. case idOrder (id' (memory res)) of
                                          None \<Rightarrow> 999 | Some k \<Rightarrow> k) results
                  else results))"

subsection \<open>list\<close>

text \<open>The value of a column as SQLite orders it: \<^verbatim>\<open>NULL\<close> first, then numbers, then
  text compared byte by byte.\<close>

datatype sqlval = SqlNull | SqlNum real | SqlText string

fun text_le :: "string \<Rightarrow> string \<Rightarrow> bool" where
  "text_le [] ys = True"
| "text_le (x # xs) [] = False"
| "text_le (x # xs) (y # ys) =
     ((of_char x :: nat) < of_char y \<or> (x = y \<and> text_le xs ys))"

fun sql_le :: "sqlval \<Rightarrow> sqlval \<Rightarrow> bool" where
  "sql_le SqlNull _ = True"
| "sql_le (SqlNum a) SqlNull = False"
| "sql_le (SqlNum a) (SqlNum b) = (a \<le> b)"
| "sql_le (SqlNum a) (SqlText t) = True"
| "sql_le (SqlText s) (SqlText t) = text_le s t"
| "sql_le (SqlText s) _ = False"

definition opt_num :: "int option \<Rightarrow> sqlval" where
  "opt_num x = (case x of None \<Rightarrow> SqlNull | Some n \<Rightarrow> SqlNum (of_int n))"

definition opt_text :: "string option \<Rightarrow> sqlval" where
  "opt_text x = (case x of None \<Rightarrow> SqlNull | Some s \<Rightarrow> SqlText s)"

fun category_text :: "MemoryCategory \<Rightarrow> string" where
  "category_text Fact = ''fact''"
| "category_text Preference = ''preference''"
| "category_text Event = ''event''"
| "category_text Relationship = ''relationship''"
| "category_text Context = ''context''"
| "category_text Instruction = ''instruction''"
| "category_text Decision = ''decision''"
| "category_text Entity = ''entity''"

text \<open>\<^verbatim>\<open>sortCol\<close>: the attribute's name in snake case names the column.\<close>

fun sort_col :: "SortBy \<Rightarrow> row \<Rightarrow> sqlval" where
  "sort_col SortId r = SqlText (c_id r)"
| "sort_col SortContent r = SqlText (c_content r)"
| "sort_col SortCategory r = SqlText (category_text (c_category r))"
| "sort_col SortConfidence r = SqlNum (c_confidence r)"
| "sort_col SortImportance r = SqlNum (c_importance r)"
| "sort_col SortCreatedAt r = SqlNum (of_int (c_created_at r))"
| "sort_col SortUpdatedAt r = SqlNum (of_int (c_updated_at r))"
| "sort_col SortLastAccessedAt r = SqlNum (of_int (c_last_accessed_at r))"
| "sort_col SortDecayDays r = opt_num (c_decay_days r)"
| "sort_col SortSourceChannel r = opt_text (c_source_channel r)"
| "sort_col SortSourceMessageId r = opt_text (c_source_message_id r)"
| "sort_col SortTags r = SqlText (JSON_stringify (c_tags r))"
| "sort_col SortSupersedes r = opt_text (c_supersedes r)"
| "sort_col SortDeletedAt r = opt_num (c_deleted_at r)"
| "sort_col SortDeleteReason r = opt_text (c_delete_reason r)"

text \<open>\<^verbatim>\<open>ORDER BY col order\<close> names no second key. The model sorts by insertion, which
  keeps rows with equal keys in the order of the scan.\<close>

fun insert_by :: "('a \<Rightarrow> 'a \<Rightarrow> bool) \<Rightarrow> 'a \<Rightarrow> 'a list \<Rightarrow> 'a list" where
  "insert_by le x [] = [x]"
| "insert_by le x (y # ys) = (if le x y then x # y # ys else y # insert_by le x ys)"

definition sort_by :: "('a \<Rightarrow> 'a \<Rightarrow> bool) \<Rightarrow> 'a list \<Rightarrow> 'a list" where
  "sort_by le xs = foldr (insert_by le) xs []"

definition order_by :: "SortBy \<Rightarrow> SortOrder \<Rightarrow> row list \<Rightarrow> row list" where
  "order_by col ord rows =
     (case ord of
        Asc \<Rightarrow> sort_by (\<lambda>a b. sql_le (sort_col col a) (sort_col col b)) rows
      | Desc \<Rightarrow> sort_by (\<lambda>a b. sql_le (sort_col col b) (sort_col col a)) rows)"

definition list_matching :: "ListOptions \<Rightarrow> row \<Rightarrow> bool" where
  "list_matching opts r =
     (c_deleted_at r = None
      \<and> (case l_category opts of None \<Rightarrow> True | Some c \<Rightarrow> c_category r = c))"

definition list :: "MemoryStore \<Rightarrow> ListOptions \<Rightarrow> ListResult" where
  "list st opts =
     (let sortBy = (case l_sortBy opts of None \<Rightarrow> SortCreatedAt | Some s \<Rightarrow> s);
          sortOrder = (case l_sortOrder opts of None \<Rightarrow> Desc | Some s \<Rightarrow> s);
          matching = filter (list_matching opts) (db st);
          rows = take (case l_limit opts of None \<Rightarrow> 20 | Some n \<Rightarrow> n)
                   (drop (case l_offset opts of None \<Rightarrow> 0 | Some n \<Rightarrow> n)
                      (order_by sortBy sortOrder matching))
      in \<lparr> total' = length matching, items = map rowToMemory rows \<rparr>)"

subsection \<open>findDuplicates\<close>

text \<open>The test \<^verbatim>\<open>memory.deletedAt\<close> of JavaScript: a number counts as set unless it
  is 0.\<close>

definition truthy :: "int option \<Rightarrow> bool" where
  "truthy x = (case x of None \<Rightarrow> False | Some n \<Rightarrow> n \<noteq> 0)"

definition findDuplicates ::
  "env \<Rightarrow> MemoryStore \<Rightarrow> string \<Rightarrow> real option \<Rightarrow> error + MemorySearchResult list" where
  "findDuplicates e st c threshold =
     (if embed_fails e then Inl EmbeddingError
      else if vector_fails e then Inl VectorError
      else case vectorSearch (vectorTable st) (embeddings st c) 1 of
             [] \<Rightarrow> Inr []
           | (v, d) # _ \<Rightarrow>
               let sc = 1 / (1 + d) in
               if sc < (case threshold of None \<Rightarrow> 0.95 | Some t \<Rightarrow> t) then Inr []
               else (case get st (v_id v) of
                       None \<Rightarrow> Inr []
                     | Some m \<Rightarrow>
                         if truthy (deletedAt m) then Inr []
                         else Inr [\<lparr> memory = m, score = sc \<rparr>]))"

subsection \<open>Consistency of the two tables\<close>

text \<open>Every entry of the vector table carries the id of a live row, no id is stored
  twice, and no entry has an id of length 8. A new store has the property, and \<open>create\<close>
  with a UUID keeps it.\<close>

definition vectors_live :: "MemoryStore \<Rightarrow> bool" where
  "vectors_live st =
     (distinct (map c_id (db st))
      \<and> list_all (\<lambda>v. length (v_id v) \<noteq> 8
                      \<and> list_ex (\<lambda>r. c_id r = v_id v \<and> c_deleted_at r = None) (db st))
           (vectorTable st))"

subsection \<open>Example stores\<close>

text \<open>Concrete stores and calls on which the theorems below are evaluated. The
  embedding of the examples maps a text to the one-element vector of its length.\<close>

definition uuid1 :: string where "uuid1 = ''0b5e7a52-6c1d-4f3a-9e0b-2f1a3c4d5e6f''"
definition uuid2 :: string where "uuid2 = ''0b5e7a52-aaaa-4f3a-9e0b-2f1a3c4d5e6f''"
definition uuid3 :: string where "uuid3 = ''7c9e6679-7425-40de-944b-e07fc1f90ae7''"

definition env_at :: "int \<Rightarrow> string \<Rightarrow> env" where
  "env_at t i =
     \<lparr>now = t, uuid = i, embed_fails = False, vector_fails = False, sqlite_fails = False\<rparr>"

text \<open>The filter reader of the examples knows one form only, \<^verbatim>\<open>id = '...'\<close> with no
  quote inside, and rejects every other text.\<close>

definition plain_where :: "string \<Rightarrow> (vrow \<Rightarrow> bool) option" where
  "plain_where s =
     (let lit = butlast (drop 6 s)
      in if s = id_filter lit \<and> CHR 0x27 \<notin> set lit then Some (\<lambda>v. v_id v = lit) else None)"

definition st_new :: MemoryStore where
  "st_new = \<lparr>db = [], vectorTable = [], embeddings = (\<lambda>s. [real (length s)]),
             lance_where = plain_where\<rparr>"

definition x_dark :: CreateMemoryInput where
  "x_dark = \<lparr>in_content = ''User prefers dark mode'', in_category = Preference,
             in_confidence = None, in_importance = None, in_decayDays = Some 1,
             in_tags = Some [''Work''], in_sourceChannel = None,
             in_sourceMessageId = None\<rparr>"

definition row_dark :: "string \<Rightarrow> int \<Rightarrow> row" where
  "row_dark i t =
     \<lparr>c_id = i, c_content = ''User prefers dark mode'', c_category = Preference,
      c_confidence = 0.8, c_importance = 0.5, c_created_at = t, c_updated_at = t,
      c_last_accessed_at = t, c_decay_days = Some 1, c_source_channel = None,
      c_source_message_id = None, c_tags = [''Work''], c_supersedes = None,
      c_deleted_at = None, c_delete_reason = None\<rparr>"

text \<open>One memory stored; the same content stored twice (the two identifiers share their
  first eight characters); the one memory deleted.\<close>

definition st_one :: MemoryStore where
  "st_one = snd (create (env_at 1000 uuid1) st_new x_dark)"

definition st_two :: MemoryStore where
  "st_two = snd (create (env_at 1001 uuid2) st_one x_dark)"

definition st_deleted :: MemoryStore where
  "st_deleted = snd (delete (env_at 2000 []) st_one uuid1 (Some ''first''))"

definition u_conf :: UpdateMemoryInput where
  "u_conf = \<lparr>up_content = None, up_confidence = Some 0.95, up_importance = None,
             up_decayDays = None, up_tags = None\<rparr>"

text \<open>Three memories; the pages of two that \<^verbatim>\<open>list\<close> is asked for; search options with one
  tag; a store whose vector table is empty.\<close>

definition st_three :: MemoryStore where
  "st_three = snd (create (env_at 1002 uuid3) st_two x_dark)"

definition list_page :: "nat \<Rightarrow> ListOptions" where
  "list_page off = \<lparr>l_category = None, l_sortBy = None, l_sortOrder = None,
                     l_limit = Some 2, l_offset = Some off\<rparr>"

definition opts_tag :: "string \<Rightarrow> SearchOptions" where
  "opts_tag t = \<lparr>s_query = None, s_category = Some Preference, s_minConfidence = Some 0.5,
                 s_minImportance = None, s_tags = Some [t], s_limit = None,
                 s_excludeDecayed = None\<rparr>"

text \<open>A create whose insert fails, followed by the same content stored twice.\<close>

definition st_orphan_two :: MemoryStore where
  "st_orphan_two =
     snd (create (env_at 1001 uuid2)
            (snd (create (env_at 1000 uuid1)
                    (snd (create ((env_at 900 uuid3)\<lparr>sqlite_fails := True\<rparr>) st_new x_dark))
                    x_dark))
            x_dark)"

definition st_unindexed :: MemoryStore where
  "st_unindexed = \<lparr>db = [row_dark uuid1 1000], vectorTable = [],
                   embeddings = (\<lambda>s. [real (length s)]), lance_where = plain_where\<rparr>"

definition opts_query :: "string option \<Rightarrow> SearchOptions" where
  "opts_query q = \<lparr>s_query = q, s_category = None, s_minConfidence = None,
                   s_minImportance = None, s_tags = None, s_limit = Some 5,
                   s_excludeDecayed = None\<rparr>"

definition opts_decay :: "bool option \<Rightarrow> SearchOptions" where
  "opts_decay ed = \<lparr>s_query = None, s_category = None, s_minConfidence = None,
                    s_minImportance = None, s_tags = None, s_limit = None,
                    s_excludeDecayed = ed\<rparr>"

section \<open>Properties\<close>

subsection \<open>Pattern matching and lookup\<close>

lemma like_percent_all: "like ''%'' s"
  by (induction s) auto

lemma like_percent_intro: "like q s \<Longrightarrow> like (CHR ''%'' # q) s"
  by (cases s) auto

text \<open>A text matches the pattern made of any of its prefixes followed by \<^verbatim>\<open>%\<close>, also
  when the prefix holds wildcard characters.\<close>

lemma like_prefix_self: "like (p @ ''%'') (p @ s)"
proof (induction p)
  case Nil
  show ?case using like_percent_all by simp
next
  case (Cons c ps)
  show ?case
  proof (cases "c = CHR ''%''")
    case True
    have "like (CHR ''%'' # ps @ ''%'') (ps @ s)"
      using Cons.IH by (rule like_percent_intro)
    with True show ?thesis by simp
  next
    case False
    with Cons.IH show ?thesis by simp
  qed
qed

lemma like_take8: "like (take 8 i @ ''%'') i"
  using like_prefix_self [of "take 8 i" "drop 8 i"] by simp

lemma find_append_fresh:
  "\<forall>x\<in>set xs. \<not> P x \<Longrightarrow> P y \<Longrightarrow> find P (xs @ [y]) = Some y"
  by (induction xs) auto

lemma find_distinct_id:
  "distinct (map c_id rows) \<Longrightarrow> r \<in> set rows \<Longrightarrow> find (\<lambda>x. c_id x = c_id r) rows = Some r"
  by (induction rows) (auto simp: rev_image_eqI)

lemma find_None_absent: "i \<notin> set (map c_id rows) \<Longrightarrow> find (\<lambda>x. c_id x = i) rows = None"
  by (induction rows) auto

lemma same_id_same_row:
  "distinct (map c_id rows) \<Longrightarrow> x \<in> set rows \<Longrightarrow> r \<in> set rows \<Longrightarrow> c_id x = c_id r \<Longrightarrow> x = r"
  by (meson distinct_map inj_onD)

lemma find_first:
  "\<exists>x\<in>set xs. P x \<Longrightarrow>
     \<exists>pre r post. xs = pre @ r # post \<and> P r \<and> (\<forall>x\<in>set pre. \<not> P x) \<and> find P xs = Some r"
proof (induction xs)
  case Nil
  then show ?case by simp
next
  case (Cons a xs)
  show ?case
  proof (cases "P a")
    case True
    then have "a # xs = [] @ a # xs \<and> P a \<and> (\<forall>x\<in>set []. \<not> P x) \<and> find P (a # xs) = Some a"
      by simp
    then show ?thesis by blast
  next
    case False
    with Cons.prems have "\<exists>x\<in>set xs. P x" by auto
    from Cons.IH [OF this] obtain pre r post where
      h: "xs = pre @ r # post" "P r" "\<forall>x\<in>set pre. \<not> P x" "find P xs = Some r" by blast
    from h False have "a # xs = (a # pre) @ r # post \<and> P r \<and> (\<forall>x\<in>set (a # pre). \<not> P x)
        \<and> find P (a # xs) = Some r"
      by simp
    then show ?thesis by blast
  qed
qed

lemma get_full_id:
  assumes "distinct (map c_id (db st))" "r \<in> set (db st)" "length (c_id r) \<noteq> 8"
  shows "get st (c_id r) = Some (rowToMemory r)"
  using assms by (simp add: get_def find_distinct_id)

subsection \<open>The serialised tags\<close>

text \<open>Parsing the text of a serialised array of strings gives the array back: this is
  why a row of the model keeps the array where the table keeps its text.\<close>

lemma hexval_hexdigit: "k < 16 \<Longrightarrow> hexval (hexdigit k) = Some k"
  by (auto simp: hexval_def hexdigit_def Let_def)

lemma hex4_control:
  assumes "(of_char c :: nat) < 32"
  shows "hex4 (CHR ''0'') (CHR ''0'') (hexdigit ((of_char c :: nat) div 16))
           (hexdigit ((of_char c :: nat) mod 16)) = Some c"
proof -
  let ?n = "of_char c :: nat"
  have z: "hexval (CHR ''0'') = Some 0" by (simp add: hexval_def)
  have a: "hexval (hexdigit (?n div 16)) = Some (?n div 16)"
    using assms by (intro hexval_hexdigit) simp
  have b: "hexval (hexdigit (?n mod 16)) = Some (?n mod 16)"
    by (intro hexval_hexdigit) simp
  have "((0 * 16 + 0) * 16 + ?n div 16) * 16 + ?n mod 16 = ?n" by simp
  moreover have "?n < 256" using assms by simp
  ultimately show ?thesis by (simp add: hex4_def z a b)
qed

lemma parse_chars_escape:
  "parse_chars (json_escape c @ cs) = map_option (\<lambda>(s, r). (c # s, r)) (parse_chars cs)"
proof -
  consider (quote) "c = CHR 0x22" | (backslash) "c = CHR 0x5C"
    | (short) "c \<in> {CHR 0x08, CHR 0x09, CHR 0x0A, CHR 0x0C, CHR 0x0D}"
    | (control) "c \<noteq> CHR 0x22" "c \<noteq> CHR 0x5C"
        "c \<notin> {CHR 0x08, CHR 0x09, CHR 0x0A, CHR 0x0C, CHR 0x0D}" "(of_char c :: nat) < 32"
    | (plain) "c \<noteq> CHR 0x22" "c \<noteq> CHR 0x5C" "\<not> (of_char c :: nat) < 32"
    by auto
  then show ?thesis
  proof cases
    case quote
    then show ?thesis by (simp add: json_escape_def json_unescape_def)
  next
    case backslash
    then show ?thesis by (simp add: json_escape_def json_unescape_def)
  next
    case short
    then show ?thesis by (auto simp: json_escape_def json_unescape_def)
  next
    case control
    then show ?thesis by (simp add: json_escape_def hex4_control)
  next
    case plain
    then have "json_escape c = [c]" by (auto simp: json_escape_def)
    with plain show ?thesis by simp
  qed
qed

lemma parse_chars_body:
  "parse_chars (concat (map json_escape s) @ CHR 0x22 # rest) = Some (s, rest)"
  by (induction s) (simp_all add: parse_chars_escape)

lemma stringify_shape:
  "join_commas (map JSON_stringify_string (t # ts)) @ '']''
     = CHR 0x22 # concat (map json_escape t) @ CHR 0x22 # join_tail ts"
  by (induction ts arbitrary: t) (simp_all add: JSON_stringify_string_def)

lemma join_tail_not_close: "join_tail (t # ts) \<noteq> '']''"
  by simp

lemma parse_elems_roundtrip:
  "parse_elems (concat (map json_escape t) @ CHR 0x22 # join_tail ts) = Some (t # ts)"
proof (induction ts arbitrary: t)
  case Nil
  show ?case by (subst parse_elems.simps) (simp add: parse_chars_body)
next
  case (Cons u us)
  show ?case
    by (subst parse_elems.simps) (simp add: parse_chars_body Cons.IH)
qed

lemma JSON_roundtrip: "JSON_parse (JSON_stringify ts) = Some ts"
proof (cases ts)
  case Nil
  then show ?thesis by (simp add: JSON_parse_def JSON_stringify_def)
next
  case (Cons t us)
  have "JSON_stringify ts = CHR ''['' # CHR 0x22 # concat (map json_escape t) @ CHR 0x22 # join_tail us"
    unfolding Cons JSON_stringify_def using stringify_shape [of t us] by simp
  then show ?thesis
    using Cons by (simp add: JSON_parse_def parse_elems_roundtrip)
qed

subsection \<open>The example stores, evaluated\<close>

lemma db_st_one: "db st_one = [row_dark uuid1 1000]"
  by (simp add: st_one_def create_def env_at_def st_new_def x_dark_def row_dark_def Let_def
      uuid1_def)

lemma vt_st_one:
  "vectorTable st_one = [\<lparr>v_id = uuid1, v_vector = [22], v_text = ''User prefers dark mode''\<rparr>]"
  by (simp add: st_one_def create_def env_at_def st_new_def x_dark_def Let_def uuid1_def)

lemma embeddings_st_one: "embeddings st_one = (\<lambda>s. [real (length s)])"
  by (simp add: st_one_def create_def env_at_def st_new_def x_dark_def Let_def uuid1_def)

lemma db_st_deleted:
  "db st_deleted =
     [(row_dark uuid1 1000)\<lparr>c_deleted_at := Some 2000, c_delete_reason := Some ''first''\<rparr>]"
  by (simp add: st_deleted_def delete_def db_st_one resolve_live_def env_at_def Let_def
      uuid1_def row_dark_def split: option.splits)

lemma db_st_two: "db st_two = [row_dark uuid1 1000, row_dark uuid2 1001]"
  by (simp add: st_two_def create_def env_at_def db_st_one embeddings_st_one x_dark_def
      row_dark_def Let_def uuid1_def uuid2_def get_def)

lemma db_st_three: "db st_three = [row_dark uuid1 1000, row_dark uuid2 1001, row_dark uuid3 1002]"
  by (simp add: st_three_def create_def env_at_def db_st_two x_dark_def
      row_dark_def Let_def uuid1_def uuid2_def uuid3_def get_def)

lemma vt_st_two:
  "vectorTable st_two =
     [\<lparr>v_id = uuid1, v_vector = [22], v_text = ''User prefers dark mode''\<rparr>,
      \<lparr>v_id = uuid2, v_vector = [22], v_text = ''User prefers dark mode''\<rparr>]"
  by (simp add: st_two_def create_def env_at_def db_st_one vt_st_one embeddings_st_one x_dark_def
      row_dark_def Let_def uuid1_def uuid2_def)

lemma embeddings_st_two: "embeddings st_two = (\<lambda>s. [real (length s)])"
  by (simp add: st_two_def create_def env_at_def db_st_one embeddings_st_one x_dark_def
      row_dark_def Let_def uuid1_def uuid2_def)

lemma create_st_one: "create (env_at 1000 uuid1) st_new x_dark = (Inr (get st_one uuid1), st_one)"
  by (simp add: prod_eq_iff st_one_def)
     (simp add: create_def env_at_def st_new_def Let_def)

lemma create_st_two: "create (env_at 1001 uuid2) st_one x_dark = (Inr (get st_two uuid2), st_two)"
  by (simp add: prod_eq_iff st_two_def)
     (simp add: create_def env_at_def db_st_one row_dark_def uuid1_def uuid2_def Let_def)

subsection \<open>create\<close>

text \<open>
  Claim C4. For a create input \<open>X\<close>, when no collaborator fails and the fresh identifier
  is a UUID (36 characters) not yet stored, \<open>create\<close> returns a Memory \<open>m\<close>, and
  \<open>get\<close> on its id returns the same Memory: its content, category, decayDays, tags,
  sourceChannel and sourceMessageId are those of \<open>X\<close> (no tags given reads as the empty
  list), confidence and importance default to 0.8 and 0.5, its id is the assigned one,
  and createdAt = updatedAt = lastAccessedAt = the time of the call.
\<close>

theorem create_get_roundtrip:
  assumes "\<not> embed_fails e" "\<not> vector_fails e" "\<not> sqlite_fails e"
    and "uuid e \<notin> set (map c_id (db st))"
    and "length (uuid e) = 36"
  shows "\<exists>m st'. create e st X = (Inr (Some m), st')
           \<and> get st' (id' m) = Some m
           \<and> id' m = uuid e
           \<and> content m = in_content X
           \<and> category m = in_category X
           \<and> confidence m = (case in_confidence X of None \<Rightarrow> 0.8 | Some c \<Rightarrow> c)
           \<and> importance m = (case in_importance X of None \<Rightarrow> 0.5 | Some c \<Rightarrow> c)
           \<and> decayDays m = in_decayDays X
           \<and> tags m = (case in_tags X of None \<Rightarrow> [] | Some ts \<Rightarrow> ts)
           \<and> sourceChannel m = in_sourceChannel X
           \<and> sourceMessageId m = in_sourceMessageId X
           \<and> createdAt m = now e \<and> updatedAt m = now e \<and> lastAccessedAt m = now e"
proof -
  have fresh: "\<forall>x\<in>set (db st). \<not> c_id x = uuid e"
    using assms(4) by force
  show ?thesis
    using assms(1,2,3,4,5)
    by (simp add: create_def Let_def get_def find_append_fresh [OF fresh] rowToMemory_def)
qed

theorem create_get_roundtrip_witness:
  "\<exists>m st'. create (env_at 1000 uuid1) st_new x_dark = (Inr (Some m), st')
     \<and> get st' (id' m) = Some m \<and> id' m = uuid1 \<and> content m = ''User prefers dark mode''
     \<and> confidence m = 0.8 \<and> tags m = [''Work''] \<and> createdAt m = 1000"
proof -
  let ?e = "env_at 1000 uuid1"
  have "\<not> embed_fails ?e" "\<not> vector_fails ?e" "\<not> sqlite_fails ?e"
    "uuid ?e \<notin> set (map c_id (db st_new))" "length (uuid ?e) = 36"
    by (simp_all add: env_at_def st_new_def uuid1_def)
  from create_get_roundtrip [OF this, of x_dark]
  obtain m st' where "create ?e st_new x_dark = (Inr (Some m), st')"
    "get st' (id' m) = Some m" "id' m = uuid ?e" "content m = in_content x_dark"
    "confidence m = (case in_confidence x_dark of None \<Rightarrow> 0.8 | Some c \<Rightarrow> c)"
    "tags m = (case in_tags x_dark of None \<Rightarrow> [] | Some ts \<Rightarrow> ts)"
    "createdAt m = now ?e" by blast
  then show ?thesis by (auto simp: env_at_def x_dark_def)
qed

text \<open>
  Claim C1, as the code has it. When the vector write of \<open>create\<close> succeeds and the
  metadata insert fails (the engine throws, or the identifier is already stored),
  \<open>create\<close> fails with the storage error and the table of memories is left as it was,
  so no record of the new memory is visible; the vector entry just written stays in the
  vector table: nothing rolls it back.
\<close>

theorem create_metadata_failure:
  assumes "\<not> embed_fails e" "\<not> vector_fails e"
    and "sqlite_fails e \<or> uuid e \<in> set (map c_id (db st))"
  shows "fst (create e st X) = Inl SqliteError
       \<and> db (snd (create e st X)) = db st
       \<and> vectorTable (snd (create e st X)) =
           vectorTable st @ [\<lparr>v_id = uuid e, v_vector = embeddings st (in_content X),
                              v_text = in_content X\<rparr>]"
  using assms by (auto simp: create_def Let_def)

theorem create_metadata_failure_witness:
  "fst (create ((env_at 1000 uuid1)\<lparr>sqlite_fails := True\<rparr>) st_new x_dark) = Inl SqliteError
   \<and> db (snd (create ((env_at 1000 uuid1)\<lparr>sqlite_fails := True\<rparr>) st_new x_dark)) = []
   \<and> map v_id (vectorTable (snd (create ((env_at 1000 uuid1)\<lparr>sqlite_fails := True\<rparr>) st_new x_dark)))
       = [uuid1]"
  using create_metadata_failure [of "(env_at 1000 uuid1)\<lparr>sqlite_fails := True\<rparr>" st_new x_dark]
  by (simp add: env_at_def st_new_def)

text \<open>The claim as the spec states it fails: after the failed create on a new store the
  vector table holds an entry whose id is the id of no row.\<close>

theorem create_orphan_counterexample:
  "fst (create ((env_at 1000 uuid1)\<lparr>sqlite_fails := True\<rparr>) st_new x_dark) = Inl SqliteError
   \<and> map v_id (vectorTable (snd (create ((env_at 1000 uuid1)\<lparr>sqlite_fails := True\<rparr>) st_new x_dark)))
       = [uuid1]
   \<and> map c_id (db (snd (create ((env_at 1000 uuid1)\<lparr>sqlite_fails := True\<rparr>) st_new x_dark))) = []"
  by (simp add: create_def env_at_def st_new_def x_dark_def Let_def)

subsection \<open>update\<close>

text \<open>
  Claim C3 fails on the code. The one memory of the example has been soft-deleted at time
  2000, so its id names no live row; neither does an id that was never stored. An update
  of the confidence at time 3000 under the id of the deleted row raises no ``not found''
  error: \<^verbatim>\<open>UPDATE memories SET ... WHERE id = ?\<close> has no guard on \<^verbatim>\<open>deleted_at\<close>, the row
  is rewritten and returned as the updated Memory. Under the id that was never stored the
  call returns \<^verbatim>\<open>null\<close>, not an error either, against the method's own result type
  \<^verbatim>\<open>Promise<Memory>\<close> and its assertion \<^verbatim>\<open>this.get(id)!\<close>.
\<close>

theorem update_not_found_missing:
  "map_option deletedAt (get st_deleted uuid1) = Some (Some 2000)
   \<and> (case fst (update (env_at 3000 []) st_deleted uuid1 u_conf) of
         Inr (Some m) \<Rightarrow> deletedAt m = Some 2000 \<and> updatedAt m = 3000
                           \<and> confidence m = 0.95
       | _ \<Rightarrow> False)
   \<and> get st_deleted uuid3 = None
   \<and> fst (update (env_at 3000 []) st_deleted uuid3 u_conf) = Inr None"
  by code_simp

subsection \<open>delete\<close>

text \<open>
  Claim C2 fails on the code. A memory is stored at time 1000 and deleted under its full
  id at time 2000 with the reason ``first''. Deleting it again at time 3000 with the
  reason ``second'' raises no error, but \<^verbatim>\<open>UPDATE ... WHERE id = ?\<close> has no guard on
  \<^verbatim>\<open>deleted_at\<close>: the second call stamps the row again, and \<^verbatim>\<open>deleted_at\<close> and
  \<^verbatim>\<open>delete_reason\<close> are no longer what the first call set.
\<close>

theorem delete_twice_restamps:
  "fst (delete (env_at 2000 []) st_one uuid1 (Some ''first'')) = Inr ()
   \<and> map c_deleted_at (db st_deleted) = [Some 2000]
   \<and> map c_delete_reason (db st_deleted) = [Some ''first'']
   \<and> fst (delete (env_at 3000 []) st_deleted uuid1 (Some ''second'')) = Inr ()
   \<and> map c_deleted_at (db (snd (delete (env_at 3000 []) st_deleted uuid1 (Some ''second''))))
       = [Some 3000]
   \<and> map c_delete_reason (db (snd (delete (env_at 3000 []) st_deleted uuid1 (Some ''second''))))
       = [Some ''second'']"
  by code_simp

text \<open>The other path of the same method leaves the deleted row alone: an 8-character
  identifier is resolved against live rows only, so the second call under the short id
  finds no row to stamp.\<close>

lemma delete_short_id_twice_keeps:
  "fst (delete (env_at 3000 []) st_deleted (take 8 uuid1) (Some ''second'')) = Inr ()
   \<and> map c_deleted_at (db (snd (delete (env_at 3000 []) st_deleted (take 8 uuid1)
         (Some ''second'')))) = [Some 2000]
   \<and> map c_delete_reason (db (snd (delete (env_at 3000 []) st_deleted (take 8 uuid1)
         (Some ''second'')))) = [Some ''first'']"
  by code_simp

text \<open>An identifier that holds a quote breaks the filter text: with a filter reader that
  rejects the spliced text, \<open>delete\<close> throws at the vector table, after the statement of
  SQLite, and \<open>update\<close> of the content throws before it.\<close>

lemma quote_in_id_throws:
  "fst (delete (env_at 3000 []) st_one [CHR ''x'', CHR 0x27, CHR ''y''] None) = Inl VectorError
   \<and> fst (update (env_at 3000 []) st_one [CHR ''x'', CHR 0x27, CHR ''y'']
            (u_conf\<lparr>up_content := Some ''new''\<rparr>)) = Inl VectorError"
  by code_simp

subsection \<open>Short identifiers\<close>

lemma prefix_find_unique:
  assumes dist: "distinct (map c_id rows)" and r: "r \<in> set rows"
    and unamb: "\<forall>x\<in>set rows. like (take 8 (c_id r) @ ''%'') (c_id x) \<longrightarrow> c_id x = c_id r"
  shows "find (\<lambda>x. like (take 8 (c_id r) @ ''%'') (c_id x)) rows = Some r"
proof -
  have "find (\<lambda>x. like (take 8 (c_id r) @ ''%'') (c_id x)) rows
        = find (\<lambda>x. c_id x = c_id r) rows"
    using unamb like_take8 [of "c_id r"] by (intro find_cong) auto
  then show ?thesis using find_distinct_id [OF dist r] by simp
qed

lemma prefix_find_live_unique:
  assumes dist: "distinct (map c_id rows)" and r: "r \<in> set rows"
    and unamb: "\<forall>x\<in>set rows. like (take 8 (c_id r) @ ''%'') (c_id x) \<longrightarrow> c_id x = c_id r"
    and live: "c_deleted_at r = None"
  shows "find (\<lambda>x. like (take 8 (c_id r) @ ''%'') (c_id x) \<and> c_deleted_at x = None) rows
         = Some r"
proof -
  have "find (\<lambda>x. like (take 8 (c_id r) @ ''%'') (c_id x) \<and> c_deleted_at x = None) rows
        = find (\<lambda>x. c_id x = c_id r) rows"
  proof (intro find_cong refl)
    fix x assume x: "x \<in> set rows"
    show "(like (take 8 (c_id r) @ ''%'') (c_id x) \<and> c_deleted_at x = None) = (c_id x = c_id r)"
      using unamb x live like_take8 [of "c_id r"] same_id_same_row [OF dist x r] by auto
  qed
  then show ?thesis using find_distinct_id [OF dist r] by simp
qed

lemma get_prefix_unique:
  assumes dist: "distinct (map c_id (db st))" and r: "r \<in> set (db st)"
    and len: "8 \<le> length (c_id r)"
    and unamb: "\<forall>x\<in>set (db st). like (take 8 (c_id r) @ ''%'') (c_id x) \<longrightarrow> c_id x = c_id r"
  shows "get st (take 8 (c_id r)) = Some (rowToMemory r)"
    and "get st (c_id r) = Some (rowToMemory r)"
proof -
  show "get st (take 8 (c_id r)) = Some (rowToMemory r)"
    using len prefix_find_unique [OF dist r unamb] by (simp add: get_def)
  show "get st (c_id r) = Some (rowToMemory r)"
  proof (cases "length (c_id r) = 8")
    case True
    then show ?thesis using prefix_find_unique [OF dist r unamb] by (simp add: get_def)
  next
    case False
    then show ?thesis using get_full_id [OF dist r] by simp
  qed
qed

lemma resolve_prefix_unique:
  assumes dist: "distinct (map c_id (db st))" and r: "r \<in> set (db st)"
    and len: "8 \<le> length (c_id r)"
    and unamb: "\<forall>x\<in>set (db st). like (take 8 (c_id r) @ ''%'') (c_id x) \<longrightarrow> c_id x = c_id r"
    and live: "c_deleted_at r = None"
  shows "resolve_live st (take 8 (c_id r)) = c_id r"
    and "resolve_live st (c_id r) = c_id r"
proof -
  show "resolve_live st (take 8 (c_id r)) = c_id r"
    using len prefix_find_live_unique [OF dist r unamb live] by (simp add: resolve_live_def)
  show "resolve_live st (c_id r) = c_id r"
  proof (cases "length (c_id r) = 8")
    case True
    then show ?thesis using prefix_find_live_unique [OF dist r unamb live]
      by (simp add: resolve_live_def)
  next
    case False
    then show ?thesis by (simp add: resolve_live_def)
  qed
qed

lemma get_first_match:
  assumes "length p = 8" and "x \<in> set (db st)" and "like (p @ ''%'') (c_id x)"
  shows "\<exists>pre r post. db st = pre @ r # post \<and> like (p @ ''%'') (c_id r)
           \<and> (\<forall>y\<in>set pre. \<not> like (p @ ''%'') (c_id y)) \<and> get st p = Some (rowToMemory r)"
proof -
  have "\<exists>y\<in>set (db st). like (p @ ''%'') (c_id y)" using assms by blast
  from find_first [of "db st" "\<lambda>y. like (p @ ''%'') (c_id y)", OF this]
  obtain pre r post where h: "db st = pre @ r # post" "like (p @ ''%'') (c_id r)"
    "\<forall>y\<in>set pre. \<not> like (p @ ''%'') (c_id y)"
    "find (\<lambda>y. like (p @ ''%'') (c_id y)) (db st) = Some r"
    by blast
  from h(4) assms(1) have "get st p = Some (rowToMemory r)"
    by (simp add: get_def)
  with h(1,2,3) show ?thesis by blast
qed

lemma resolve_first_live_match:
  assumes "length p = 8" and "x \<in> set (db st)" and "like (p @ ''%'') (c_id x)"
    and "c_deleted_at x = None"
  shows "\<exists>pre r post. db st = pre @ r # post \<and> like (p @ ''%'') (c_id r)
           \<and> c_deleted_at r = None
           \<and> (\<forall>y\<in>set pre. \<not> (like (p @ ''%'') (c_id y) \<and> c_deleted_at y = None))
           \<and> resolve_live st p = c_id r"
proof -
  have "\<exists>y\<in>set (db st). like (p @ ''%'') (c_id y) \<and> c_deleted_at y = None"
    using assms by blast
  from find_first [of "db st" "\<lambda>y. like (p @ ''%'') (c_id y) \<and> c_deleted_at y = None", OF this]
  obtain pre r post where h: "db st = pre @ r # post"
    "like (p @ ''%'') (c_id r) \<and> c_deleted_at r = None"
    "\<forall>y\<in>set pre. \<not> (like (p @ ''%'') (c_id y) \<and> c_deleted_at y = None)"
    "find (\<lambda>y. like (p @ ''%'') (c_id y) \<and> c_deleted_at y = None) (db st) = Some r"
    by blast
  from h(4) assms(1) have "resolve_live st p = c_id r"
    by (simp add: resolve_live_def)
  with h(1,2,3) show ?thesis by blast
qed

text \<open>
  Claim C6, as the code has it. In a table with distinct ids:
  \<^item> for a stored id of at least 8 characters whose first 8 characters, as the pattern
    \<^verbatim>\<open>prefix%\<close>, match no other stored id, \<open>get\<close> on the prefix and \<open>get\<close> on the full id
    return the same row, and when that row is live \<open>delete\<close> on the prefix does exactly
    what \<open>delete\<close> on the full id does (\<open>delete\<close> resolves a short id against the live
    rows only);
  \<^item> an 8-character identifier that matches some stored id, and may match several,
    resolves in \<open>get\<close> to the first matching row in insertion order, and in \<open>delete\<close>
    to the first live matching row: one row, never an error, the same row on every call
    since both are functions of the table.
\<close>

theorem short_id_resolution:
  assumes dist: "distinct (map c_id (db st))"
  shows "(r \<in> set (db st) \<and> 8 \<le> length (c_id r)
            \<and> (\<forall>x\<in>set (db st). like (take 8 (c_id r) @ ''%'') (c_id x) \<longrightarrow> c_id x = c_id r)
          \<longrightarrow> get st (take 8 (c_id r)) = Some (rowToMemory r)
              \<and> get st (c_id r) = Some (rowToMemory r)
              \<and> (c_deleted_at r = None \<longrightarrow>
                   delete e st (take 8 (c_id r)) reason = delete e st (c_id r) reason))
       \<and> (length p = 8 \<and> x \<in> set (db st) \<and> like (p @ ''%'') (c_id x)
          \<longrightarrow> (\<exists>pre r' post. db st = pre @ r' # post \<and> like (p @ ''%'') (c_id r')
                  \<and> (\<forall>y\<in>set pre. \<not> like (p @ ''%'') (c_id y))
                  \<and> get st p = Some (rowToMemory r'))
              \<and> (c_deleted_at x = None \<longrightarrow>
                  (\<exists>pre r' post. db st = pre @ r' # post \<and> like (p @ ''%'') (c_id r')
                    \<and> c_deleted_at r' = None
                    \<and> (\<forall>y\<in>set pre. \<not> (like (p @ ''%'') (c_id y) \<and> c_deleted_at y = None))
                    \<and> resolve_live st p = c_id r')))"
proof (intro conjI impI)
  assume a: "r \<in> set (db st) \<and> 8 \<le> length (c_id r)
     \<and> (\<forall>x\<in>set (db st). like (take 8 (c_id r) @ ''%'') (c_id x) \<longrightarrow> c_id x = c_id r)"
  then have r: "r \<in> set (db st)" and len: "8 \<le> length (c_id r)"
    and unamb: "\<forall>x\<in>set (db st). like (take 8 (c_id r) @ ''%'') (c_id x) \<longrightarrow> c_id x = c_id r"
    by blast+
  show "get st (take 8 (c_id r)) = Some (rowToMemory r)"
    by (rule get_prefix_unique(1) [OF dist r len unamb])
  show "get st (c_id r) = Some (rowToMemory r)"
    by (rule get_prefix_unique(2) [OF dist r len unamb])
  assume live: "c_deleted_at r = None"
  show "delete e st (take 8 (c_id r)) reason = delete e st (c_id r) reason"
    using resolve_prefix_unique [OF dist r len unamb live] by (simp add: delete_def)
next
  assume b: "length p = 8 \<and> x \<in> set (db st) \<and> like (p @ ''%'') (c_id x)"
  then show "\<exists>pre r' post. db st = pre @ r' # post \<and> like (p @ ''%'') (c_id r')
       \<and> (\<forall>y\<in>set pre. \<not> like (p @ ''%'') (c_id y)) \<and> get st p = Some (rowToMemory r')"
    using get_first_match [of p x st] by blast
  assume "c_deleted_at x = None"
  with b show "\<exists>pre r' post. db st = pre @ r' # post \<and> like (p @ ''%'') (c_id r')
       \<and> c_deleted_at r' = None
       \<and> (\<forall>y\<in>set pre. \<not> (like (p @ ''%'') (c_id y) \<and> c_deleted_at y = None))
       \<and> resolve_live st p = c_id r'"
    using resolve_first_live_match [of p x st] by blast
qed

text \<open>In the store of three memories the id of the third has a prefix of its own, and
  the prefix \<^verbatim>\<open>0b5e7a52\<close> is shared by the first two.\<close>

theorem short_id_resolution_witness:
  "get st_three (take 8 uuid3) = Some (rowToMemory (row_dark uuid3 1002))
   \<and> get st_three uuid3 = Some (rowToMemory (row_dark uuid3 1002))
   \<and> delete (env_at 2000 []) st_three (take 8 uuid3) None
       = delete (env_at 2000 []) st_three uuid3 None
   \<and> (\<exists>pre r' post. db st_three = pre @ r' # post \<and> like (''0b5e7a52'' @ ''%'') (c_id r')
         \<and> (\<forall>y\<in>set pre. \<not> like (''0b5e7a52'' @ ''%'') (c_id y))
         \<and> get st_three ''0b5e7a52'' = Some (rowToMemory r'))
   \<and> (\<exists>pre r' post. db st_three = pre @ r' # post \<and> like (''0b5e7a52'' @ ''%'') (c_id r')
         \<and> c_deleted_at r' = None
         \<and> (\<forall>y\<in>set pre. \<not> (like (''0b5e7a52'' @ ''%'') (c_id y) \<and> c_deleted_at y = None))
         \<and> resolve_live st_three ''0b5e7a52'' = c_id r')"
proof -
  let ?r = "row_dark uuid3 1002"
  let ?x = "row_dark uuid2 1001"
  have d: "distinct (map c_id (db st_three))"
    by (simp add: db_st_three row_dark_def uuid1_def uuid2_def uuid3_def)
  have l1: "\<not> like (take 8 uuid3 @ ''%'') uuid1" and l2: "\<not> like (take 8 uuid3 @ ''%'') uuid2"
    by code_simp+
  have r: "?r \<in> set (db st_three) \<and> 8 \<le> length (c_id ?r)
      \<and> (\<forall>x\<in>set (db st_three). like (take 8 (c_id ?r) @ ''%'') (c_id x) \<longrightarrow> c_id x = c_id ?r)"
    using l1 l2 by (simp add: db_st_three row_dark_def) (simp add: uuid3_def)
  have live: "c_deleted_at ?r = None" "c_deleted_at ?x = None" by (simp_all add: row_dark_def)
  have m: "like (''0b5e7a52'' @ ''%'') uuid2" by code_simp
  have p: "length ''0b5e7a52'' = 8 \<and> ?x \<in> set (db st_three)
      \<and> like (''0b5e7a52'' @ ''%'') (c_id ?x)"
    using m by (simp add: db_st_three row_dark_def)
  have c: "c_id ?r = uuid3" by (simp add: row_dark_def)
  from short_id_resolution [OF d, of ?r "env_at 2000 []" None "''0b5e7a52''" ?x] r live p
  show ?thesis unfolding c by blast
qed

text \<open>The claim as the spec states it fails for \<open>delete\<close>: the one memory of the example
  has been soft-deleted, and no other id shares its first 8 characters. \<open>get\<close> resolves
  the prefix to the row of the full id, but \<open>delete\<close> resolves the prefix against live
  rows only and finds none: under the prefix the row keeps its stamp, under the full id
  the row is stamped again.\<close>

theorem short_id_deleted_counterexample:
  "map c_id (db st_deleted) = [uuid1]
   \<and> get st_deleted (take 8 uuid1) = get st_deleted uuid1
   \<and> resolve_live st_deleted (take 8 uuid1) = take 8 uuid1
   \<and> resolve_live st_deleted uuid1 = uuid1
   \<and> map c_deleted_at (db (snd (delete (env_at 3000 []) st_deleted (take 8 uuid1) None)))
       = [Some 2000]
   \<and> map c_deleted_at (db (snd (delete (env_at 3000 []) st_deleted uuid1 None)))
       = [Some 3000]"
  by code_simp

subsection \<open>list\<close>

lemma mset_insert_by: "mset (insert_by le x xs) = add_mset x (mset xs)"
  by (induction xs) auto

lemma mset_sort_by: "mset (sort_by le xs) = mset xs"
  by (induction xs) (auto simp: sort_by_def mset_insert_by)

lemma mset_order_by: "mset (order_by col ord rows) = mset rows"
  by (cases ord) (simp_all add: order_by_def mset_sort_by)

lemma length_order_by: "length (order_by col ord rows) = length rows"
  using mset_order_by [of col ord rows] by (metis size_mset)

lemma two_pages:
  assumes "length xs = 3"
  shows "take 2 (drop 0 xs) @ take 2 (drop 2 xs) = xs"
    and "length (take 2 (drop 0 xs)) = 2" and "length (take 2 (drop 2 xs)) = 1"
  using assms by simp_all

lemma id_rowToMemory: "map id' (map rowToMemory rows) = map c_id rows"
  by (simp add: rowToMemory_def)

text \<open>
  Claim C5. Over a table with exactly 3 live rows, and for any sort key and order,
  \<^verbatim>\<open>list({limit:2, offset:0})\<close> followed by \<^verbatim>\<open>list({limit:2, offset:2})\<close> reports
  \<open>total = 3\<close> in both calls and returns two rows, then one; the two pages together hold
  the 3 live rows, each as often as the table does, and no id twice when the ids of the
  table are distinct. \<^verbatim>\<open>ORDER BY\<close> names the sort column only: rows with equal keys
  stay in the order of the scan, which is the same in both calls.
\<close>

theorem list_pagination:
  assumes cat: "l_category opts = None"
    and three: "length (filter (\<lambda>r. c_deleted_at r = None) (db st)) = 3"
  shows "total' (list st (opts\<lparr>l_limit := Some 2, l_offset := Some 0\<rparr>)) = 3
       \<and> total' (list st (opts\<lparr>l_limit := Some 2, l_offset := Some 2\<rparr>)) = 3
       \<and> length (items (list st (opts\<lparr>l_limit := Some 2, l_offset := Some 0\<rparr>))) = 2
       \<and> length (items (list st (opts\<lparr>l_limit := Some 2, l_offset := Some 2\<rparr>))) = 1
       \<and> mset (items (list st (opts\<lparr>l_limit := Some 2, l_offset := Some 0\<rparr>))
               @ items (list st (opts\<lparr>l_limit := Some 2, l_offset := Some 2\<rparr>)))
           = mset (map rowToMemory (filter (\<lambda>r. c_deleted_at r = None) (db st)))
       \<and> (distinct (map c_id (db st)) \<longrightarrow>
            distinct (map id' (items (list st (opts\<lparr>l_limit := Some 2, l_offset := Some 0\<rparr>))
                              @ items (list st (opts\<lparr>l_limit := Some 2, l_offset := Some 2\<rparr>)))))"
proof -
  let ?live = "filter (\<lambda>r. c_deleted_at r = None) (db st)"
  let ?col = "case l_sortBy opts of None \<Rightarrow> SortCreatedAt | Some s \<Rightarrow> s"
  let ?ord = "case l_sortOrder opts of None \<Rightarrow> Desc | Some s \<Rightarrow> s"
  let ?S = "order_by ?col ?ord ?live"
  let ?p1 = "list st (opts\<lparr>l_limit := Some 2, l_offset := Some 0\<rparr>)"
  let ?p2 = "list st (opts\<lparr>l_limit := Some 2, l_offset := Some 2\<rparr>)"
  have "list_matching (opts\<lparr>l_limit := Some 2, l_offset := Some k\<rparr>)
          = (\<lambda>r. c_deleted_at r = None)" for k
    using cat by (simp add: fun_eq_iff list_matching_def)
  then have m: "filter (list_matching (opts\<lparr>l_limit := Some 2, l_offset := Some k\<rparr>)) (db st)
          = ?live" for k
    by simp
  have lenS: "length ?S = 3" using three by (simp add: length_order_by)
  have i1: "items ?p1 = map rowToMemory (take 2 (drop 0 ?S))"
    by (simp add: list_def Let_def m del: drop_0)
  have i2: "items ?p2 = map rowToMemory (take 2 (drop 2 ?S))"
    by (simp add: list_def Let_def m)
  have t: "total' ?p1 = 3" "total' ?p2 = 3"
    using three by (simp_all add: list_def Let_def m)
  have both: "items ?p1 @ items ?p2 = map rowToMemory ?S"
    unfolding i1 i2 map_append [symmetric] two_pages(1) [OF lenS] ..
  have ms: "mset (items ?p1 @ items ?p2) = mset (map rowToMemory ?live)"
    unfolding both by (simp add: mset_order_by)
  have l: "length (items ?p1) = 2" "length (items ?p2) = 1"
    unfolding i1 i2 length_map using two_pages(2,3) [OF lenS] by blast+
  have d: "distinct (map id' (items ?p1 @ items ?p2))" if "distinct (map c_id (db st))"
  proof -
    have "distinct (map c_id ?live)" using that by (rule distinct_map_filter)
    moreover have "mset (map c_id ?S) = mset (map c_id ?live)"
      by (simp add: mset_order_by)
    ultimately have "distinct (map c_id ?S)" by (metis mset_eq_imp_distinct_iff)
    then show ?thesis unfolding both id_rowToMemory .
  qed
  from t l ms d show ?thesis by blast
qed

theorem list_pagination_witness:
  "total' (list st_three (list_page 0)) = 3 \<and> total' (list st_three (list_page 2)) = 3
   \<and> map id' (items (list st_three (list_page 0))) = [uuid3, uuid2]
   \<and> map id' (items (list st_three (list_page 2))) = [uuid1]"
proof -
  have c: "l_category (list_page 0) = None" by (simp add: list_page_def)
  have n: "length (filter (\<lambda>r. c_deleted_at r = None) (db st_three)) = 3"
    by (simp add: db_st_three row_dark_def)
  have p: "(list_page 0)\<lparr>l_limit := Some 2, l_offset := Some 0\<rparr> = list_page 0"
     "(list_page 0)\<lparr>l_limit := Some 2, l_offset := Some 2\<rparr> = list_page 2"
    by (simp_all add: list_page_def)
  have ids: "map id' (items (list st_three (list_page 0))) = [uuid3, uuid2]"
    "map id' (items (list st_three (list_page 2))) = [uuid1]"
    by (simp_all add: list_def list_page_def db_st_three list_matching_def [abs_def] row_dark_def
        order_by_def sort_by_def Let_def rowToMemory_def)
  from list_pagination [OF c n] ids show ?thesis unfolding p by blast
qed

subsection \<open>search\<close>

lemma search_Inr:
  assumes "search e st opts = Inr res"
  obtains scored where "candidates e st opts = Inr scored"
    and "length res \<le> (case s_limit opts of None \<Rightarrow> 10 | Some n \<Rightarrow> n)"
    and "\<And>x. x \<in> set res \<Longrightarrow>
           \<exists>r\<in>set (db st). row_matches opts (now e) (map fst scored) r
             \<and> memory x = rowToMemory r
             \<and> score x = (case js_map scored (c_id r) of None \<Rightarrow> 1 | Some s \<Rightarrow> s)"
proof (cases "candidates e st opts")
  case (Inl err)
  with assms show ?thesis by (simp add: search_def)
next
  case (Inr scored)
  let ?lim = "case s_limit opts of None \<Rightarrow> 10 | Some n \<Rightarrow> n"
  let ?rows = "take ?lim (filter (row_matches opts (now e) (map fst scored)) (db st))"
  let ?results = "map (\<lambda>r. \<lparr> memory = rowToMemory r,
       score = (case js_map scored (c_id r) of None \<Rightarrow> 1 | Some s \<Rightarrow> s) \<rparr>) ?rows"
  from assms Inr have len: "length res = length ?results" and st: "set res = set ?results"
    by (auto simp: search_def Let_def split: if_splits)
  have l: "length res \<le> ?lim" using len by simp
  have "\<exists>r\<in>set (db st). row_matches opts (now e) (map fst scored) r
        \<and> memory x = rowToMemory r
        \<and> score x = (case js_map scored (c_id r) of None \<Rightarrow> 1 | Some s \<Rightarrow> s)"
    if "x \<in> set res" for x
  proof -
    from that st obtain r where r: "r \<in> set ?rows"
      and x: "x = \<lparr> memory = rowToMemory r,
          score = (case js_map scored (c_id r) of None \<Rightarrow> 1 | Some s \<Rightarrow> s) \<rparr>"
      by auto
    from r have "r \<in> set (filter (row_matches opts (now e) (map fst scored)) (db st))"
      by (rule in_set_takeD)
    with x show ?thesis by auto
  qed
  with Inr l show ?thesis by (rule that)
qed

lemma candidates_ok:
  "\<not> embed_fails e \<Longrightarrow> \<not> vector_fails e \<Longrightarrow> \<exists>scored. candidates e st opts = Inr scored"
  by (simp add: candidates_def split: option.splits)

lemma search_ok:
  assumes "\<not> embed_fails e" "\<not> vector_fails e"
  shows "\<exists>res. search e st opts = Inr res"
proof -
  from candidates_ok [OF assms] obtain scored where "candidates e st opts = Inr scored" by blast
  then show ?thesis by (simp add: search_def Let_def)
qed

lemma row_matches_weaken: "row_matches opts t ids r \<Longrightarrow> row_matches opts t [] r"
  by (simp add: row_matches_def)

lemma search_no_match:
  assumes "\<not> embed_fails e" "\<not> vector_fails e"
    and none: "\<forall>r\<in>set (db st). \<not> row_matches opts (now e) [] r"
  shows "search e st opts = Inr []"
proof -
  from search_ok [OF assms(1,2)] obtain res where res: "search e st opts = Inr res" by blast
  have "x \<notin> set res" for x
  proof
    assume x: "x \<in> set res"
    from res obtain scored where
    cands: "candidates e st opts = Inr scored"
    and len: "length res \<le> (case s_limit opts of None \<Rightarrow> 10 | Some n \<Rightarrow> n)"
    and rows: "\<And>x. x \<in> set res \<Longrightarrow>
           \<exists>r\<in>set (db st). row_matches opts (now e) (map fst scored) r
             \<and> memory x = rowToMemory r
             \<and> score x = (case js_map scored (c_id r) of None \<Rightarrow> 1 | Some s \<Rightarrow> s)"
    by (rule search_Inr) (rule that)
    from rows [OF x] obtain r where "r \<in> set (db st)"
      "row_matches opts (now e) (map fst scored) r" by blast
    with none row_matches_weaken show False by blast
  qed
  then have "res = []" by (cases res) auto
  with res show ?thesis by simp
qed

text \<open>
  Claim C8, as the code has it. Every result of \<open>search\<close> is a row that is not
  soft-deleted, has the category asked for, a confidence of at least \<open>minConfidence\<close>
  and an importance of at least \<open>minImportance\<close>, and whose serialised tag list matches
  the pattern \<^verbatim>\<open>%"tag"%\<close> of SQLite's \<^verbatim>\<open>LIKE\<close> for every tag asked for (ASCII letters
  in either case, \<^verbatim>\<open>%\<close> and \<^verbatim>\<open>_\<close> in the tag as wildcards); there are at most \<open>limit\<close>
  results (10 when no limit is given); when the collaborators do not fail the search
  returns a sequence, and the empty sequence when no row passes the filters.
\<close>

theorem search_results_filtered:
  "(search e st opts = Inr res \<longrightarrow>
      length res \<le> (case s_limit opts of None \<Rightarrow> 10 | Some n \<Rightarrow> n)
      \<and> (\<forall>x\<in>set res.
            deletedAt (memory x) = None
          \<and> (\<forall>c. s_category opts = Some c \<longrightarrow> category (memory x) = c)
          \<and> (\<forall>m. s_minConfidence opts = Some m \<longrightarrow> confidence (memory x) \<ge> m)
          \<and> (\<forall>m. s_minImportance opts = Some m \<longrightarrow> importance (memory x) \<ge> m)
          \<and> (\<forall>ts tag. s_tags opts = Some ts \<and> tag \<in> set ts \<longrightarrow>
                like (tag_pattern tag) (JSON_stringify (tags (memory x))))))
   \<and> (\<not> embed_fails e \<and> \<not> vector_fails e \<longrightarrow> (\<exists>res'. search e st opts = Inr res'))
   \<and> (\<not> embed_fails e \<and> \<not> vector_fails e
        \<and> (\<forall>r\<in>set (db st). \<not> row_matches opts (now e) [] r)
      \<longrightarrow> search e st opts = Inr [])"
proof (intro conjI impI)
  assume res: "search e st opts = Inr res"
  from res obtain scored where
    cands: "candidates e st opts = Inr scored"
    and len: "length res \<le> (case s_limit opts of None \<Rightarrow> 10 | Some n \<Rightarrow> n)"
    and rows: "\<And>x. x \<in> set res \<Longrightarrow>
           \<exists>r\<in>set (db st). row_matches opts (now e) (map fst scored) r
             \<and> memory x = rowToMemory r
             \<and> score x = (case js_map scored (c_id r) of None \<Rightarrow> 1 | Some s \<Rightarrow> s)"
    by (rule search_Inr) (rule that)
  show "length res \<le> (case s_limit opts of None \<Rightarrow> 10 | Some n \<Rightarrow> n)" by (rule len)
  show "\<forall>x\<in>set res.
            deletedAt (memory x) = None
          \<and> (\<forall>c. s_category opts = Some c \<longrightarrow> category (memory x) = c)
          \<and> (\<forall>m. s_minConfidence opts = Some m \<longrightarrow> confidence (memory x) \<ge> m)
          \<and> (\<forall>m. s_minImportance opts = Some m \<longrightarrow> importance (memory x) \<ge> m)
          \<and> (\<forall>ts tag. s_tags opts = Some ts \<and> tag \<in> set ts \<longrightarrow>
                like (tag_pattern tag) (JSON_stringify (tags (memory x))))"
  proof
    fix x assume "x \<in> set res"
    from rows [OF this] obtain r where m: "row_matches opts (now e) (map fst scored) r"
      and x: "memory x = rowToMemory r" by blast
    from m show "deletedAt (memory x) = None
          \<and> (\<forall>c. s_category opts = Some c \<longrightarrow> category (memory x) = c)
          \<and> (\<forall>m. s_minConfidence opts = Some m \<longrightarrow> confidence (memory x) \<ge> m)
          \<and> (\<forall>m. s_minImportance opts = Some m \<longrightarrow> importance (memory x) \<ge> m)
          \<and> (\<forall>ts tag. s_tags opts = Some ts \<and> tag \<in> set ts \<longrightarrow>
                like (tag_pattern tag) (JSON_stringify (tags (memory x))))"
      unfolding x by (auto simp: row_matches_def rowToMemory_def list_all_iff)
  qed
next
  assume "\<not> embed_fails e \<and> \<not> vector_fails e"
  then show "\<exists>res'. search e st opts = Inr res'" using search_ok by blast
next
  assume "\<not> embed_fails e \<and> \<not> vector_fails e
        \<and> (\<forall>r\<in>set (db st). \<not> row_matches opts (now e) [] r)"
  then show "search e st opts = Inr []" using search_no_match by blast
qed

theorem search_results_filtered_witness:
  "(\<exists>res. search (env_at 2000 []) st_one (opts_tag ''work'') = Inr res
      \<and> length res \<le> 10
      \<and> (\<forall>x\<in>set res. deletedAt (memory x) = None \<and> category (memory x) = Preference
            \<and> confidence (memory x) \<ge> 0.5
            \<and> like (tag_pattern ''work'') (JSON_stringify (tags (memory x)))))
   \<and> search (env_at 2000 []) st_one (opts_tag ''nothing'') = Inr []"
proof -
  let ?e = "env_at 2000 []"
  have nf: "\<not> embed_fails ?e \<and> \<not> vector_fails ?e" by (simp add: env_at_def)
  from search_results_filtered [of ?e st_one "opts_tag ''work''" "[]"] nf
  obtain res where r: "search ?e st_one (opts_tag ''work'') = Inr res" by blast
  have o: "s_category (opts_tag ''work'') = Some Preference"
    "s_minConfidence (opts_tag ''work'') = Some 0.5"
    "s_tags (opts_tag ''work'') = Some [''work''] \<and> ''work'' \<in> set [''work'']"
    "(case s_limit (opts_tag ''work'') of None \<Rightarrow> 10 | Some n \<Rightarrow> n) = 10"
    by (simp_all add: opts_tag_def)
  from search_results_filtered [of ?e st_one "opts_tag ''work''" res] r
  have g: "length res \<le> (case s_limit (opts_tag ''work'') of None \<Rightarrow> 10 | Some n \<Rightarrow> n)"
    and h: "\<And>x. x \<in> set res \<Longrightarrow>
            deletedAt (memory x) = None
          \<and> (\<forall>c. s_category (opts_tag ''work'') = Some c \<longrightarrow> category (memory x) = c)
          \<and> (\<forall>m. s_minConfidence (opts_tag ''work'') = Some m \<longrightarrow> confidence (memory x) \<ge> m)
          \<and> (\<forall>m. s_minImportance (opts_tag ''work'') = Some m \<longrightarrow> importance (memory x) \<ge> m)
          \<and> (\<forall>ts tag. s_tags (opts_tag ''work'') = Some ts \<and> tag \<in> set ts \<longrightarrow>
                like (tag_pattern tag) (JSON_stringify (tags (memory x))))"
    by blast+
  have "deletedAt (memory x) = None \<and> category (memory x) = Preference
            \<and> confidence (memory x) \<ge> 0.5
            \<and> like (tag_pattern ''work'') (JSON_stringify (tags (memory x)))"
    if "x \<in> set res" for x
    using h [OF that] o(1,2,3) by blast
  with g o(4) have a: "length res \<le> 10
      \<and> (\<forall>x\<in>set res. deletedAt (memory x) = None \<and> category (memory x) = Preference
            \<and> confidence (memory x) \<ge> 0.5
            \<and> like (tag_pattern ''work'') (JSON_stringify (tags (memory x))))"
    by simp
  have "\<not> row_matches (opts_tag ''nothing'') 2000 [] (row_dark uuid1 1000)"
    by code_simp
  then have n: "\<forall>r\<in>set (db st_one). \<not> row_matches (opts_tag ''nothing'') (now ?e) [] r"
    by (simp add: db_st_one env_at_def)
  from search_results_filtered [of ?e st_one "opts_tag ''nothing''" "[]"] nf n
  have b: "search ?e st_one (opts_tag ''nothing'') = Inr []" by blast
  from r a b show ?thesis by blast
qed

text \<open>The claim as the spec states it fails on the tags: the stored memory carries the
  tag ``Work'', a search for the tag ``work'' returns it, and ``work'' is not among its
  tags.\<close>

theorem search_tag_counterexample:
  "(case search (env_at 2000 []) st_one (opts_tag ''work'') of
      Inr [x] \<Rightarrow> tags (memory x) = [''Work''] | _ \<Rightarrow> False)
   \<and> ''work'' \<notin> set [''Work'']"
  by code_simp

lemma row_matches_query: "row_matches (opts\<lparr>s_query := q\<rparr>) t ids r = row_matches opts t ids r"
  by (simp add: row_matches_def)

lemma js_map_empty: "js_map [] = Map.empty"
  by (simp add: js_map_def)

lemma search_no_candidates:
  assumes "candidates e st opts = Inr []"
  shows "search e st opts =
           Inr (map (\<lambda>r. \<lparr>memory = rowToMemory r, score = 1\<rparr>)
                  (take (case s_limit opts of None \<Rightarrow> 10 | Some n \<Rightarrow> n)
                     (filter (row_matches opts (now e) []) (db st))))"
  using assms by (simp add: search_def Let_def js_map_empty)

text \<open>
  Claim C10. When \<open>search\<close> is given a non-empty query and the vector table yields no
  candidate (it is empty, say), no restriction to candidate ids is made: the result is
  that of the same search without a query, namely the first \<open>limit\<close> rows, in the order
  of the scan, that pass the structured filters, each with the score 1.
\<close>

theorem search_empty_index:
  assumes q: "s_query opts = Some q" "q \<noteq> []"
    and ok: "\<not> embed_fails e" "\<not> vector_fails e"
    and none: "vectorSearch (vectorTable st) (embeddings st q)
                 ((case s_limit opts of None \<Rightarrow> 10 | Some n \<Rightarrow> n) * 2) = []"
  shows "search e st opts = search e st (opts\<lparr>s_query := None\<rparr>)
       \<and> search e st opts =
           Inr (map (\<lambda>r. \<lparr>memory = rowToMemory r, score = 1\<rparr>)
                  (take (case s_limit opts of None \<Rightarrow> 10 | Some n \<Rightarrow> n)
                     (filter (row_matches opts (now e) []) (db st))))"
proof -
  have c1: "candidates e st opts = Inr []"
    using q ok none by (simp add: candidates_def)
  have c2: "candidates e st (opts\<lparr>s_query := None\<rparr>) = Inr []"
    by (simp add: candidates_def)
  have "row_matches (opts\<lparr>s_query := None\<rparr>) (now e) [] = row_matches opts (now e) []"
    by (simp add: fun_eq_iff row_matches_query)
  with search_no_candidates [OF c1] search_no_candidates [OF c2]
  show ?thesis by simp
qed

theorem search_empty_index_witness:
  "search (env_at 2000 []) st_unindexed (opts_query (Some ''dark mode''))
     = search (env_at 2000 []) st_unindexed (opts_query None)
   \<and> search (env_at 2000 []) st_unindexed (opts_query (Some ''dark mode''))
     = Inr [\<lparr>memory = rowToMemory (row_dark uuid1 1000), score = 1\<rparr>]"
proof -
  let ?e = "env_at 2000 []"
  let ?o = "opts_query (Some ''dark mode'')"
  have h: "s_query ?o = Some ''dark mode''" "''dark mode'' \<noteq> []"
    "\<not> embed_fails ?e" "\<not> vector_fails ?e"
    "vectorSearch (vectorTable st_unindexed) (embeddings st_unindexed ''dark mode'')
       ((case s_limit ?o of None \<Rightarrow> 10 | Some n \<Rightarrow> n) * 2) = []"
    by (simp_all add: opts_query_def env_at_def st_unindexed_def vectorSearch_def)
  have u: "?o\<lparr>s_query := None\<rparr> = opts_query None" by (simp add: opts_query_def)
  have m: "row_matches ?o 2000 [] (row_dark uuid1 1000)" by code_simp
  have f: "take (case s_limit ?o of None \<Rightarrow> 10 | Some n \<Rightarrow> n)
             (filter (row_matches ?o (now ?e) []) (db st_unindexed)) = [row_dark uuid1 1000]"
    using m by (simp add: st_unindexed_def env_at_def opts_query_def)
  note t = search_empty_index [OF h, unfolded u f]
  have a: "search ?e st_unindexed ?o = search ?e st_unindexed (opts_query None)"
    by (rule conjunct1 [OF t])
  have b: "search ?e st_unindexed ?o
              = Inr [\<lparr>memory = rowToMemory (row_dark uuid1 1000), score = 1\<rparr>]"
    using conjunct2 [OF t] by simp
  show ?thesis by (intro conjI a b)
qed

subsection \<open>Decay\<close>

lemma search_excludes_expired:
  assumes dist: "distinct (map c_id (db st))" and r: "r \<in> set (db st)"
    and dd: "c_decay_days r = Some d" and expired: "c_created_at r + d * 86400000 \<le> now e"
    and ed: "s_excludeDecayed opts \<noteq> Some False"
    and res: "search e st opts = Inr res"
  shows "\<forall>x\<in>set res. id' (memory x) \<noteq> c_id r"
proof
  fix x assume x: "x \<in> set res"
  from res obtain scored where
    cands: "candidates e st opts = Inr scored"
    and len: "length res \<le> (case s_limit opts of None \<Rightarrow> 10 | Some n \<Rightarrow> n)"
    and rows: "\<And>x. x \<in> set res \<Longrightarrow>
           \<exists>r\<in>set (db st). row_matches opts (now e) (map fst scored) r
             \<and> memory x = rowToMemory r
             \<and> score x = (case js_map scored (c_id r) of None \<Rightarrow> 1 | Some s \<Rightarrow> s)"
    by (rule search_Inr) (rule that)
  from rows [OF x] obtain r' where r': "r' \<in> set (db st)"
    and m: "row_matches opts (now e) (map fst scored) r'"
    and mx: "memory x = rowToMemory r'" by blast
  show "id' (memory x) \<noteq> c_id r"
  proof
    assume "id' (memory x) = c_id r"
    with mx have "c_id r' = c_id r" by (simp add: rowToMemory_def)
    with same_id_same_row [OF dist r' r] have "r' = r" by simp
    with m dd expired ed show False by (simp add: row_matches_def)
  qed
qed

lemma search_includes_expired:
  assumes r: "r \<in> set (db st)" and live: "c_deleted_at r = None"
    and ed: "s_excludeDecayed opts = Some False" and q: "s_query opts = None"
    and cat: "\<forall>c. s_category opts = Some c \<longrightarrow> c_category r = c"
    and conf: "\<forall>m. s_minConfidence opts = Some m \<longrightarrow> c_confidence r \<ge> m"
    and imp: "\<forall>m. s_minImportance opts = Some m \<longrightarrow> c_importance r \<ge> m"
    and tg: "\<forall>ts tag. s_tags opts = Some ts \<and> tag \<in> set ts \<longrightarrow>
               like (tag_pattern tag) (JSON_stringify (c_tags r))"
    and fits: "length (db st) \<le> (case s_limit opts of None \<Rightarrow> 10 | Some n \<Rightarrow> n)"
  shows "\<exists>res. search e st opts = Inr res \<and> \<lparr>memory = rowToMemory r, score = 1\<rparr> \<in> set res"
proof -
  let ?lim = "case s_limit opts of None \<Rightarrow> 10 | Some n \<Rightarrow> n"
  let ?P = "row_matches opts (now e) []"
  have c: "candidates e st opts = Inr []" using q by (simp add: candidates_def)
  have m: "?P r"
    using live ed cat conf imp tg
    by (auto simp: row_matches_def list_all_iff split: option.splits)
  have "length (filter ?P (db st)) \<le> ?lim"
    using fits length_filter_le [of ?P "db st"] by linarith
  then have "take ?lim (filter ?P (db st)) = filter ?P (db st)" by simp
  with search_no_candidates [OF c] r m show ?thesis by auto
qed

text \<open>
  Claim C7. Let \<open>r\<close> be a stored row with \<open>decay_days = d\<close> that is expired at the time
  of the call: \<open>created_at + d \<times> 86400000 \<le> now\<close> (ids distinct, the id of \<open>r\<close> not 8
  characters long).
  \<^item> A search that does not set \<^verbatim>\<open>excludeDecayed\<close> to false never returns \<open>r\<close>.
  \<^item> A search with \<^verbatim>\<open>excludeDecayed = false\<close> and no query returns \<open>r\<close>, with score 1,
    when \<open>r\<close> is live, passes the other filters of the search, and the table has no more
    rows than the limit.
  \<^item> \<open>get\<close> on the id of \<open>r\<close> returns \<open>r\<close>.
\<close>

theorem decay_visibility:
  assumes dist: "distinct (map c_id (db st))" and r: "r \<in> set (db st)"
    and dd: "c_decay_days r = Some d" and expired: "c_created_at r + d * 86400000 \<le> now e"
    and len: "length (c_id r) \<noteq> 8"
  shows "(s_excludeDecayed opts \<noteq> Some False \<and> search e st opts = Inr res
            \<longrightarrow> (\<forall>x\<in>set res. id' (memory x) \<noteq> c_id r))
       \<and> (s_excludeDecayed opts' = Some False \<and> s_query opts' = None
            \<and> c_deleted_at r = None
            \<and> (\<forall>c. s_category opts' = Some c \<longrightarrow> c_category r = c)
            \<and> (\<forall>m. s_minConfidence opts' = Some m \<longrightarrow> c_confidence r \<ge> m)
            \<and> (\<forall>m. s_minImportance opts' = Some m \<longrightarrow> c_importance r \<ge> m)
            \<and> (\<forall>ts tag. s_tags opts' = Some ts \<and> tag \<in> set ts \<longrightarrow>
                  like (tag_pattern tag) (JSON_stringify (c_tags r)))
            \<and> length (db st) \<le> (case s_limit opts' of None \<Rightarrow> 10 | Some n \<Rightarrow> n)
            \<longrightarrow> (\<exists>res'. search e st opts' = Inr res'
                    \<and> \<lparr>memory = rowToMemory r, score = 1\<rparr> \<in> set res'))
       \<and> get st (c_id r) = Some (rowToMemory r)"
proof (intro conjI impI)
  assume "s_excludeDecayed opts \<noteq> Some False \<and> search e st opts = Inr res"
  then show "\<forall>x\<in>set res. id' (memory x) \<noteq> c_id r"
    using search_excludes_expired [OF dist r dd expired] by blast
next
  assume a: "s_excludeDecayed opts' = Some False \<and> s_query opts' = None
            \<and> c_deleted_at r = None
            \<and> (\<forall>c. s_category opts' = Some c \<longrightarrow> c_category r = c)
            \<and> (\<forall>m. s_minConfidence opts' = Some m \<longrightarrow> c_confidence r \<ge> m)
            \<and> (\<forall>m. s_minImportance opts' = Some m \<longrightarrow> c_importance r \<ge> m)
            \<and> (\<forall>ts tag. s_tags opts' = Some ts \<and> tag \<in> set ts \<longrightarrow>
                  like (tag_pattern tag) (JSON_stringify (c_tags r)))
            \<and> length (db st) \<le> (case s_limit opts' of None \<Rightarrow> 10 | Some n \<Rightarrow> n)"
  show "\<exists>res'. search e st opts' = Inr res' \<and> \<lparr>memory = rowToMemory r, score = 1\<rparr> \<in> set res'"
    by (rule search_includes_expired [OF r]) (use a in blast)+
next
  show "get st (c_id r) = Some (rowToMemory r)"
    by (rule get_full_id [OF dist r len])
qed

theorem decay_visibility_witness:
  "(\<exists>res. search (env_at 86401000 []) st_two (opts_decay None) = Inr res
       \<and> map (id' \<circ> memory) res = [uuid2]
       \<and> (\<forall>x\<in>set res. id' (memory x) \<noteq> uuid1))
   \<and> (\<exists>res'. search (env_at 86401000 []) st_two (opts_decay (Some False)) = Inr res'
         \<and> \<lparr>memory = rowToMemory (row_dark uuid1 1000), score = 1\<rparr> \<in> set res')
   \<and> get st_two uuid1 = Some (rowToMemory (row_dark uuid1 1000))"
proof -
  let ?e = "env_at 86401000 []"
  let ?r = "row_dark uuid1 1000"
  let ?no = "opts_decay (Some False)"
  have h: "distinct (map c_id (db st_two))" "?r \<in> set (db st_two)"
    "c_decay_days ?r = Some 1" "c_created_at ?r + 1 * 86400000 \<le> now ?e"
    "length (c_id ?r) \<noteq> 8"
    by (simp_all add: db_st_two row_dark_def env_at_def uuid1_def uuid2_def)
  have c: "c_id ?r = uuid1" by (simp add: row_dark_def)
  have s: "search ?e st_two (opts_decay None)
             = Inr [\<lparr>memory = rowToMemory (row_dark uuid2 1001), score = 1\<rparr>]"
    by (simp add: search_def candidates_def opts_decay_def db_st_two row_matches_def
        row_dark_def env_at_def js_map_def Let_def)
  have d: "s_excludeDecayed (opts_decay None) \<noteq> Some False" by (simp add: opts_decay_def)
  have i: "s_excludeDecayed ?no = Some False \<and> s_query ?no = None
            \<and> c_deleted_at ?r = None
            \<and> (\<forall>c. s_category ?no = Some c \<longrightarrow> c_category ?r = c)
            \<and> (\<forall>m. s_minConfidence ?no = Some m \<longrightarrow> c_confidence ?r \<ge> m)
            \<and> (\<forall>m. s_minImportance ?no = Some m \<longrightarrow> c_importance ?r \<ge> m)
            \<and> (\<forall>ts tag. s_tags ?no = Some ts \<and> tag \<in> set ts \<longrightarrow>
                  like (tag_pattern tag) (JSON_stringify (c_tags ?r)))
            \<and> length (db st_two) \<le> (case s_limit ?no of None \<Rightarrow> 10 | Some n \<Rightarrow> n)"
    by (simp add: opts_decay_def row_dark_def db_st_two)
  note t = decay_visibility [OF h, of "opts_decay None"
      "[\<lparr>memory = rowToMemory (row_dark uuid2 1001), score = 1\<rparr>]" ?no]
  from t s d have "\<forall>x\<in>set [\<lparr>memory = rowToMemory (row_dark uuid2 1001), score = 1\<rparr>].
      id' (memory x) \<noteq> uuid1" unfolding c by blast
  with s have a: "\<exists>res. search ?e st_two (opts_decay None) = Inr res
       \<and> map (id' \<circ> memory) res = [uuid2] \<and> (\<forall>x\<in>set res. id' (memory x) \<noteq> uuid1)"
    by (simp add: rowToMemory_def row_dark_def)
  from t i have b: "\<exists>res'. search ?e st_two ?no = Inr res'
         \<and> \<lparr>memory = rowToMemory ?r, score = 1\<rparr> \<in> set res'" by blast
  from t have g: "get st_two uuid1 = Some (rowToMemory ?r)" unfolding c by blast
  from a b g show ?thesis by blast
qed

subsection \<open>findDuplicates\<close>

lemma l2_distance_self: "l2_distance v v = 0"
  by (induction v) (simp_all add: l2_distance_def)

lemma l2_distance_nonneg: "0 \<le> l2_distance q v"
  unfolding l2_distance_def by (rule sum_list_nonneg) auto

lemma vectorSearch_empty: "vectorSearch vt q 1 = [] \<longleftrightarrow> vt = []"
proof -
  have "length (sort_key snd (map (\<lambda>v. (v, l2_distance q (v_vector v))) vt)) = length vt"
    by simp
  then show ?thesis
    unfolding vectorSearch_def
    by (cases "sort_key snd (map (\<lambda>v. (v, l2_distance q (v_vector v))) vt)") auto
qed

lemma vectorSearch_nearest:
  assumes "vectorSearch vt q 1 = (v, d) # rest"
  shows "v \<in> set vt" and "d = l2_distance q (v_vector v)"
    and "\<forall>w\<in>set vt. d \<le> l2_distance q (v_vector w)"
proof -
  let ?f = "\<lambda>v. (v, l2_distance q (v_vector v))"
  let ?xs = "sort_key snd (map ?f vt)"
  from assms obtain xs' where xs: "?xs = (v, d) # xs'"
    unfolding vectorSearch_def by (cases ?xs) auto
  have st: "set ?xs = set (map ?f vt)" by simp
  have so: "sorted (map snd ?xs)" by (rule sorted_sort_key)
  from xs st have "(v, d) \<in> set (map ?f vt)" by (metis list.set_intros(1))
  then show "v \<in> set vt" and "d = l2_distance q (v_vector v)" by auto
  show "\<forall>w\<in>set vt. d \<le> l2_distance q (v_vector w)"
  proof
    fix w assume "w \<in> set vt"
    then have "?f w \<in> set ?xs" unfolding st by simp
    with xs have "?f w = (v, d) \<or> ?f w \<in> set xs'" by simp
    moreover from so xs have "\<forall>y\<in>set xs'. d \<le> snd y" by simp
    ultimately show "d \<le> l2_distance q (v_vector w)" by auto
  qed
qed

lemma get_Some_row: "get st i = Some m \<Longrightarrow> \<exists>r\<in>set (db st). m = rowToMemory r"
  by (auto simp: get_def find_Some_iff split: if_splits)

lemma truthy_deleted:
  assumes "\<forall>r\<in>set (db st). c_deleted_at r \<noteq> Some 0" and "get st i = Some m"
  shows "truthy (deletedAt m) \<longleftrightarrow> deletedAt m \<noteq> None"
proof -
  from get_Some_row [OF assms(2)] obtain r where "r \<in> set (db st)" "m = rowToMemory r" by blast
  with assms(1) show ?thesis by (auto simp: truthy_def rowToMemory_def split: option.splits)
qed

lemma findDuplicates_cases:
  assumes nf: "\<not> embed_fails e" "\<not> vector_fails e"
    and wf: "\<forall>r\<in>set (db st). c_deleted_at r \<noteq> Some 0"
  shows "(vectorSearch (vectorTable st) (embeddings st c) 1 = [] \<longrightarrow>
            findDuplicates e st c th = Inr [])
       \<and> (\<forall>v d rest. vectorSearch (vectorTable st) (embeddings st c) 1 = (v, d) # rest \<longrightarrow>
            (1 / (1 + d) < (case th of None \<Rightarrow> 0.95 | Some t \<Rightarrow> t)
               \<or> get st (v_id v) = None
               \<or> (\<exists>m. get st (v_id v) = Some m \<and> deletedAt m \<noteq> None)
             \<longrightarrow> findDuplicates e st c th = Inr [])
          \<and> (\<forall>m. \<not> 1 / (1 + d) < (case th of None \<Rightarrow> 0.95 | Some t \<Rightarrow> t)
                 \<and> get st (v_id v) = Some m \<and> deletedAt m = None
             \<longrightarrow> findDuplicates e st c th = Inr [\<lparr>memory = m, score = 1 / (1 + d)\<rparr>]))"
proof (intro conjI allI impI)
  assume "vectorSearch (vectorTable st) (embeddings st c) 1 = []"
  then show "findDuplicates e st c th = Inr []"
    using nf by (simp add: findDuplicates_def)
next
  fix v d rest
  assume vs: "vectorSearch (vectorTable st) (embeddings st c) 1 = (v, d) # rest"
  assume "1 / (1 + d) < (case th of None \<Rightarrow> 0.95 | Some t \<Rightarrow> t)
               \<or> get st (v_id v) = None
               \<or> (\<exists>m. get st (v_id v) = Some m \<and> deletedAt m \<noteq> None)"
  then consider (low) "1 / (1 + d) < (case th of None \<Rightarrow> 0.95 | Some t \<Rightarrow> t)"
    | (missing) "get st (v_id v) = None"
    | (deleted) m where "get st (v_id v) = Some m" "deletedAt m \<noteq> None"
    by auto
  then show "findDuplicates e st c th = Inr []"
  proof cases
    case low
    then show ?thesis using nf vs by (simp add: findDuplicates_def Let_def)
  next
    case missing
    then show ?thesis using nf vs by (simp add: findDuplicates_def Let_def)
  next
    case deleted
    with truthy_deleted [OF wf deleted(1)] have "truthy (deletedAt m)" by simp
    with deleted(1) show ?thesis using nf vs by (simp add: findDuplicates_def Let_def)
  qed
next
  fix v d rest m
  assume vs: "vectorSearch (vectorTable st) (embeddings st c) 1 = (v, d) # rest"
  assume a: "\<not> 1 / (1 + d) < (case th of None \<Rightarrow> 0.95 | Some t \<Rightarrow> t)
                 \<and> get st (v_id v) = Some m \<and> deletedAt m = None"
  then have "\<not> truthy (deletedAt m)" by (simp add: truthy_def)
  with a show "findDuplicates e st c th = Inr [\<lparr>memory = m, score = 1 / (1 + d)\<rparr>]"
    using nf vs by (simp add: findDuplicates_def Let_def)
qed

lemma create_success:
  assumes "create e st X = (Inr m, st')"
  shows "db st' = db st @ [\<lparr> c_id = uuid e,
                         c_content = in_content X,
                         c_category = in_category X,
                         c_confidence = (case in_confidence X of None \<Rightarrow> 0.8 | Some c \<Rightarrow> c),
                         c_importance = (case in_importance X of None \<Rightarrow> 0.5 | Some c \<Rightarrow> c),
                         c_created_at = now e,
                         c_updated_at = now e,
                         c_last_accessed_at = now e,
                         c_decay_days = in_decayDays X,
                         c_source_channel = in_sourceChannel X,
                         c_source_message_id = in_sourceMessageId X,
                         c_tags = (case in_tags X of None \<Rightarrow> [] | Some ts \<Rightarrow> ts),
                         c_supersedes = None,
                         c_deleted_at = None,
                         c_delete_reason = None \<rparr>]"
    and "vectorTable st' = vectorTable st @
           [\<lparr>v_id = uuid e, v_vector = embeddings st (in_content X), v_text = in_content X\<rparr>]"
    and "embeddings st' = embeddings st"
    and "uuid e \<notin> set (map c_id (db st))"
  using assms by (auto simp: create_def Let_def split: if_splits)

lemma create_vectors_live:
  assumes c: "create e st X = (Inr m, st')" and inv: "vectors_live st"
    and len: "length (uuid e) \<noteq> 8"
  shows "vectors_live st'"
  using inv len create_success(4) [OF c]
  unfolding vectors_live_def create_success(1,2) [OF c]
  by (auto simp: list_all_iff list_ex_iff)

lemma findDuplicates_stored:
  assumes inv: "vectors_live st"
    and stored: "\<exists>w\<in>set (vectorTable st). v_vector w = embeddings st c"
    and nf: "\<not> embed_fails e" "\<not> vector_fails e"
  shows "\<exists>x. findDuplicates e st c (Some 0.95) = Inr [x] \<and> score x = 1"
proof -
  from stored have "vectorTable st \<noteq> []" by auto
  then obtain v d rest where vs: "vectorSearch (vectorTable st) (embeddings st c) 1 = (v, d) # rest"
    using vectorSearch_empty [of "vectorTable st" "embeddings st c"]
    by (cases "vectorSearch (vectorTable st) (embeddings st c) 1") auto
  note n = vectorSearch_nearest [OF vs]
  from stored obtain w where w: "w \<in> set (vectorTable st)" "v_vector w = embeddings st c" by blast
  from n(3) w have "d \<le> l2_distance (embeddings st c) (embeddings st c)" by auto
  with n(2) l2_distance_nonneg [of "embeddings st c" "v_vector v"] have d: "d = 0"
    by (simp add: l2_distance_self)
  from inv n(1) obtain r where r: "r \<in> set (db st)" "c_id r = v_id v" "c_deleted_at r = None"
    and l8: "length (v_id v) \<noteq> 8" and dist: "distinct (map c_id (db st))"
    by (auto simp: vectors_live_def list_all_iff list_ex_iff)
  from get_full_id [OF dist r(1)] l8 r(2) have g: "get st (v_id v) = Some (rowToMemory r)"
    by simp
  have "findDuplicates e st c (Some 0.95) = Inr [\<lparr>memory = rowToMemory r, score = 1\<rparr>]"
    using nf vs g r(3) d by (simp add: findDuplicates_def Let_def truthy_def rowToMemory_def)
  then show ?thesis by simp
qed

lemma findDuplicates_after_two_creates:
  assumes inv: "vectors_live st0"
    and c1: "create e1 st0 X1 = (Inr m1, st1)" and c2: "create e2 st1 X2 = (Inr m2, st)"
    and same: "in_content X1 = c" "in_content X2 = c"
    and len: "length (uuid e1) = 36" "length (uuid e2) = 36"
    and nf: "\<not> embed_fails e" "\<not> vector_fails e"
  shows "\<exists>x. findDuplicates e st c (Some 0.95) = Inr [x] \<and> score x \<ge> 0.95"
proof -
  have i1: "vectors_live st1" using create_vectors_live [OF c1 inv] len(1) by simp
  have i2: "vectors_live st" using create_vectors_live [OF c2 i1] len(2) by simp
  have "embeddings st = embeddings st1" by (rule create_success(3) [OF c2])
  then have "\<exists>w\<in>set (vectorTable st). v_vector w = embeddings st c"
    unfolding create_success(2) [OF c2] using same(2) by simp
  from findDuplicates_stored [OF i2 this nf] show ?thesis by auto
qed

text \<open>
  Claim C9, as the code has it. When the collaborators do not fail:
  \<^item> in a table whose deletion stamps are clock readings (none is 0), \<open>findDuplicates\<close>
    returns the empty sequence when the vector table is empty, when the score
    \<open>1 / (1 + distance)\<close> of the nearest entry is below the threshold (0.95 when none is
    given), when \<open>get\<close> finds no row for the id of that entry, or when the row it finds
    is soft-deleted; otherwise it returns exactly that one Memory with that score;
  \<^item> starting from a store in which every vector entry belongs to a live row (a new
    store is one), after the same content has been stored twice by \<open>create\<close> (with
    UUIDs), \<open>findDuplicates\<close> with threshold 0.95 on that content returns exactly one
    match, with a score of at least 0.95.
\<close>

theorem findDuplicates_gate:
  assumes nf: "\<not> embed_fails e" "\<not> vector_fails e"
  shows "((\<forall>r\<in>set (db st). c_deleted_at r \<noteq> Some 0) \<longrightarrow>
           (vectorSearch (vectorTable st) (embeddings st c) 1 = [] \<longrightarrow>
              findDuplicates e st c th = Inr [])
         \<and> (\<forall>v d rest. vectorSearch (vectorTable st) (embeddings st c) 1 = (v, d) # rest \<longrightarrow>
              (1 / (1 + d) < (case th of None \<Rightarrow> 0.95 | Some t \<Rightarrow> t)
                 \<or> get st (v_id v) = None
                 \<or> (\<exists>m. get st (v_id v) = Some m \<and> deletedAt m \<noteq> None)
               \<longrightarrow> findDuplicates e st c th = Inr [])
            \<and> (\<forall>m. \<not> 1 / (1 + d) < (case th of None \<Rightarrow> 0.95 | Some t \<Rightarrow> t)
                   \<and> get st (v_id v) = Some m \<and> deletedAt m = None
               \<longrightarrow> findDuplicates e st c th = Inr [\<lparr>memory = m, score = 1 / (1 + d)\<rparr>])))
       \<and> (vectors_live st0
            \<and> create e1 st0 X1 = (Inr m1, st1) \<and> create e2 st1 X2 = (Inr m2, st)
            \<and> in_content X1 = c \<and> in_content X2 = c
            \<and> length (uuid e1) = 36 \<and> length (uuid e2) = 36
          \<longrightarrow> (\<exists>x. findDuplicates e st c (Some 0.95) = Inr [x] \<and> score x \<ge> 0.95))"
proof (intro conjI)
  show "(\<forall>r\<in>set (db st). c_deleted_at r \<noteq> Some 0) \<longrightarrow>
           (vectorSearch (vectorTable st) (embeddings st c) 1 = [] \<longrightarrow>
              findDuplicates e st c th = Inr [])
         \<and> (\<forall>v d rest. vectorSearch (vectorTable st) (embeddings st c) 1 = (v, d) # rest \<longrightarrow>
              (1 / (1 + d) < (case th of None \<Rightarrow> 0.95 | Some t \<Rightarrow> t)
                 \<or> get st (v_id v) = None
                 \<or> (\<exists>m. get st (v_id v) = Some m \<and> deletedAt m \<noteq> None)
               \<longrightarrow> findDuplicates e st c th = Inr [])
            \<and> (\<forall>m. \<not> 1 / (1 + d) < (case th of None \<Rightarrow> 0.95 | Some t \<Rightarrow> t)
                   \<and> get st (v_id v) = Some m \<and> deletedAt m = None
               \<longrightarrow> findDuplicates e st c th = Inr [\<lparr>memory = m, score = 1 / (1 + d)\<rparr>]))"
    using findDuplicates_cases [OF nf] by (rule impI)
next
  show "vectors_live st0
            \<and> create e1 st0 X1 = (Inr m1, st1) \<and> create e2 st1 X2 = (Inr m2, st)
            \<and> in_content X1 = c \<and> in_content X2 = c
            \<and> length (uuid e1) = 36 \<and> length (uuid e2) = 36
          \<longrightarrow> (\<exists>x. findDuplicates e st c (Some 0.95) = Inr [x] \<and> score x \<ge> 0.95)"
  proof
    assume a: "vectors_live st0
            \<and> create e1 st0 X1 = (Inr m1, st1) \<and> create e2 st1 X2 = (Inr m2, st)
            \<and> in_content X1 = c \<and> in_content X2 = c
            \<and> length (uuid e1) = 36 \<and> length (uuid e2) = 36"
    show "\<exists>x. findDuplicates e st c (Some 0.95) = Inr [x] \<and> score x \<ge> 0.95"
      by (rule findDuplicates_after_two_creates [of st0 e1 X1 m1 st1 e2 X2 m2 st c e])
         (use a nf in simp_all)
  qed
qed

theorem findDuplicates_gate_witness:
  "findDuplicates (env_at 3000 []) st_two ''User prefers dark mode'' None
      = Inr [\<lparr>memory = rowToMemory (row_dark uuid1 1000), score = 1\<rparr>]
   \<and> (\<exists>x. findDuplicates (env_at 3000 []) st_two ''User prefers dark mode'' (Some 0.95) = Inr [x]
         \<and> score x \<ge> 0.95)"
proof -
  let ?e = "env_at 3000 []"
  let ?c = "''User prefers dark mode''"
  let ?v = "\<lparr>v_id = uuid1, v_vector = [22], v_text = ?c\<rparr>"
  let ?m = "rowToMemory (row_dark uuid1 1000)"
  have nf: "\<not> embed_fails ?e" "\<not> vector_fails ?e" by (simp_all add: env_at_def)
  note t = findDuplicates_gate [OF nf, of st_two ?c None st_new "env_at 1000 uuid1" x_dark
      "get st_one uuid1" st_one "env_at 1001 uuid2" x_dark "get st_two uuid2"]
  have wf: "\<forall>r\<in>set (db st_two). c_deleted_at r \<noteq> Some 0"
    by (simp add: db_st_two row_dark_def)
  have vs: "vectorSearch (vectorTable st_two) (embeddings st_two ?c) 1 = (?v, 0) # []"
    by (simp add: vectorSearch_def vt_st_two embeddings_st_two l2_distance_def)
  have g: "\<not> 1 / (1 + (0::real)) < (case None of None \<Rightarrow> 0.95 | Some t \<Rightarrow> t)
      \<and> get st_two (v_id ?v) = Some ?m \<and> deletedAt ?m = None"
    by (simp add: get_def db_st_two uuid1_def uuid2_def row_dark_def rowToMemory_def)
  from t wf vs g
  have a: "findDuplicates ?e st_two ?c None = Inr [\<lparr>memory = ?m, score = 1 / (1 + 0)\<rparr>]"
    by fast
  have two: "vectors_live st_new
            \<and> create (env_at 1000 uuid1) st_new x_dark = (Inr (get st_one uuid1), st_one)
            \<and> create (env_at 1001 uuid2) st_one x_dark = (Inr (get st_two uuid2), st_two)
            \<and> in_content x_dark = ?c \<and> in_content x_dark = ?c
            \<and> length (uuid (env_at 1000 uuid1)) = 36 \<and> length (uuid (env_at 1001 uuid2)) = 36"
    using create_st_one create_st_two
    by (simp add: vectors_live_def st_new_def x_dark_def env_at_def uuid1_def uuid2_def)
  from t two
  have b: "\<exists>x. findDuplicates ?e st_two ?c (Some 0.95) = Inr [x] \<and> score x \<ge> 0.95"
    by fast
  from a b show ?thesis by simp
qed

text \<open>The claim as the spec states it fails without the condition on the starting store.
  A create whose metadata insert fails leaves its vector entry behind; the same content
  is then stored twice. The nearest entry is the one left behind, at distance 0; \<open>get\<close>
  finds no row for its id, no second neighbour is looked at, and \<open>findDuplicates\<close> returns
  the empty sequence.\<close>

theorem findDuplicates_orphan_counterexample:
  "fst (create ((env_at 900 uuid3)\<lparr>sqlite_fails := True\<rparr>) st_new x_dark) = Inl SqliteError
   \<and> map c_id (db st_orphan_two) = [uuid1, uuid2]
   \<and> map c_content (db st_orphan_two) = [''User prefers dark mode'', ''User prefers dark mode'']
   \<and> map c_deleted_at (db st_orphan_two) = [None, None]
   \<and> map v_id (vectorTable st_orphan_two) = [uuid3, uuid1, uuid2]
   \<and> findDuplicates (env_at 3000 []) st_orphan_two ''User prefers dark mode'' (Some 0.95)
       = Inr []"
  by code_simp

end
